theory Spec2Isabelle
  imports
    Main
    "HOL-Library.AList"
    "HOL-Library.Sublist"
    "HOL-Library.Char_ord"
    "HOL-Library.List_Lexorder"
    "HOL-Library.Multiset"
begin

section \<open>Data model\<close>

text \<open>
  A Python \<open>dict\<close> keeps its keys in insertion order and holds every key once. It is
  modelled as an association list: \<open>map_of\<close> is the lookup, \<open>AList.update\<close> is
  \<open>d[k] = v\<close> (the value is replaced in place when the key is there, the pair is appended
  otherwise), and the list order is the iteration order.

  A PIL image is modelled by its size; the pixel buffer plays no part in the layout.
  A PIL image never has a negative width or height, so both are naturals.
\<close>

record Image =
  img_width :: nat
  img_height :: nat

text \<open>A position \<open>(x, y, width, height)\<close> in the sprite sheet.\<close>

type_synonym rect = "nat \<times> nat \<times> nat \<times> nat"

text \<open>
  The sprite sheet: \<open>Image.new('RGBA', (w, h), (0, 0, 0, 0))\<close> followed by the calls
  \<open>sprite.paste(img, (x, y))\<close>, recorded in the order they are made. Both are calls
  into PIL, which is not part of the program, and are taken to succeed.
\<close>

record Sheet =
  sheet_width :: nat
  sheet_height :: nat
  pastes :: "(Image \<times> nat \<times> nat) list"

text \<open>
  An entry \<open>weapon_name, (image, original_width, original_height)\<close> of \<open>icons\<close>. The
  original size is the size of the definition, an integer that \<open>pack_sprites\<close> never reads.
\<close>

type_synonym icon_entry = "string \<times> Image \<times> int \<times> int"

datatype py_error = KeyError

section \<open>The sprite packer: \<open>pack_sprites\<close>\<close>

definition target_width :: nat where
  "target_width = 512"

record pack_state =
  current_x :: nat
  current_y :: nat
  row_height :: nat
  max_width :: nat
  positions :: "(string \<times> rect) list"

definition init_state :: pack_state where
  "init_state = \<lparr>current_x = 0, current_y = 0, row_height = 0, max_width = 0, positions = []\<rparr>"

text \<open>The test \<open>current_x + img.width > target_width and current_x > 0\<close>.\<close>

definition starts_new_row :: "pack_state \<Rightarrow> Image \<Rightarrow> bool" where
  "starts_new_row s img \<longleftrightarrow> current_x s + img_width img > target_width \<and> current_x s > 0"

text \<open>The body of the \<open>if\<close>: move to the next row.\<close>

definition next_row :: "pack_state \<Rightarrow> pack_state" where
  "next_row s = s\<lparr>current_x := 0, current_y := current_y s + row_height s, row_height := 0\<rparr>"

text \<open>One iteration of the first pass, for the entry \<open>weapon_name, (img, orig_w, orig_h)\<close>.\<close>

definition place :: "pack_state \<Rightarrow> icon_entry \<Rightarrow> pack_state" where
  "place s e =
     (let weapon_name = fst e;
          img = fst (snd e);
          s1 = (if starts_new_row s img then next_row s else s);
          s2 = s1\<lparr>positions :=
                 AList.update weapon_name (current_x s1, current_y s1, img_width img, img_height img)
                   (positions s1)\<rparr>;
          cx = current_x s2 + img_width img
      in s2\<lparr>current_x := cx,
             row_height := max (row_height s2) (img_height img),
             max_width := max (max_width s2) cx\<rparr>)"

text \<open>
  \<open>sorted(icons.items(), key=lambda x: x[1][0].height, reverse=True)\<close>. Python's sort is
  stable, and with \<open>reverse=True\<close> entries of equal height keep their original order: the
  list is reversed, sorted stably in ascending order, and reversed again.
\<close>

definition sorted_icons :: "icon_entry list \<Rightarrow> icon_entry list" where
  "sorted_icons icons = rev (sort_key (\<lambda>e. img_height (fst (snd e))) (rev icons))"

definition first_pass :: "icon_entry list \<Rightarrow> pack_state" where
  "first_pass icons = foldl place init_state (sorted_icons icons)"

text \<open>
  The paste loop: \<open>img = icons[weapon_name][0]; sprite.paste(img, (x, y))\<close> for every entry
  of \<open>positions\<close>. The subscript raises \<open>KeyError\<close> for a name that is not in \<open>icons\<close>.
\<close>

fun paste_icons ::
  "icon_entry list \<Rightarrow> (string \<times> rect) list \<Rightarrow> Sheet \<Rightarrow> py_error + Sheet" where
  "paste_icons icons [] sprite = Inr sprite"
| "paste_icons icons ((weapon_name, (x, y, w, h)) # rest) sprite =
     (case map_of icons weapon_name of
        None \<Rightarrow> Inl KeyError
      | Some entry \<Rightarrow> paste_icons icons rest (sprite\<lparr>pastes := pastes sprite @ [(fst entry, x, y)]\<rparr>))"

text \<open>
  The alias loop: \<open>if canonical in positions: positions[alias] = positions[canonical]\<close>,
  over \<open>aliases.items()\<close> in order.
\<close>

fun add_aliases :: "(string \<times> string) list \<Rightarrow> (string \<times> rect) list \<Rightarrow> (string \<times> rect) list" where
  "add_aliases [] pos = pos"
| "add_aliases ((alias, canonical) # rest) pos =
     add_aliases rest
       (case map_of pos canonical of
          None \<Rightarrow> pos
        | Some r \<Rightarrow> AList.update alias r pos)"

definition pack_sprites ::
  "icon_entry list \<Rightarrow> (string \<times> string) list
     \<Rightarrow> py_error + (Sheet \<times> (string \<times> rect) list)" where
  "pack_sprites icons aliases =
     (if icons = [] then Inr (\<lparr>sheet_width = 1, sheet_height = 1, pastes = []\<rparr>, [])
      else
        let s = first_pass icons;
            final_height = current_y s + row_height s;
            final_width = max_width s;
            sprite = \<lparr>sheet_width = final_width, sheet_height = final_height, pastes = []\<rparr>
        in case paste_icons icons (positions s) sprite of
             Inl e \<Rightarrow> Inl e
           | Inr sprite' \<Rightarrow> Inr (sprite', add_aliases aliases (positions s)))"

section \<open>The static tables\<close>

text \<open>
  \<open>WEAPON_MAPPINGS\<close> (known mismatches between log names and internal names) and
  \<open>WEAPON_ALIASES\<close> (same icon, different log names), entry for entry as in the source.
\<close>

definition WEAPON_MAPPINGS :: "(string \<times> string) list" where
  "WEAPON_MAPPINGS =
    [(''robot_arm'', ''robot_arm_kill''),
     (''unique_pickaxe'', ''pickaxe''),
     (''world'', ''skull''),
     (''trigger_hurt'', ''skull''),
     (''env_explosion'', ''skull''),
     (''player'', ''skull''),
     (''tf_pumpkin_bomb'', ''pumpkindeath''),
     (''default'', ''saw_kill''),
     (''grenadelauncher'', ''tf_projectile_pipe''),
     (''rocketlauncher'', ''tf_projectile_rocket''),
     (''stickybomb_launcher'', ''tf_projectile_pipe_remote''),
     (''flamethrower'', ''tf_weapon_flamethrower''),
     (''knife'', ''tf_weapon_knife''),
     (''frontier_justice'', ''frontier_kill''),
     (''southern_hospitality'', ''southern_comfort_kill''),
     (''golden_wrench'', ''wrench_golden''),
     (''gunslinger'', ''robot_arm_kill''),
     (''jag'', ''wrench_jag''),
     (''wrangler'', ''wrangler_kill''),
     (''chargin_targe'', ''demoshield''),
     (''loose_cannon'', ''loose_cannon_impact''),
     (''tf_projectile_mechanicalarmorb'', ''tf_projectile_mechanicalarmor''),
     (''baby_face_blaster'', ''pep_brawlerblaster''),
     (''winger'', ''the_winger''),
     (''pretty_boy_pocket_pistol'', ''pep_pistol''),
     (''flying_guillotine'', ''guillotine''),
     (''three_rune_blade'', ''boston_basher''),
     (''sun_on_a_stick'', ''lava_bat''),
     (''fan_o_war'', ''warfan''),
     (''black_box'', ''blackbox''),
     (''beggars_bazooka'', ''dumpster_device''),
     (''beggar'', ''dumpster_device''),
     (''direct_hit'', ''rocketlauncher_directhit''),
     (''original'', ''quake_rl''),
     (''escape_plan'', ''pickaxe''),
     (''equalizer'', ''pickaxe''),
     (''unique_pickaxe_escape'', ''pickaxe''),
     (''dragon_fury'', ''ai_flamethrower''),
     (''neon_annihilator'', ''annihilator''),
     (''third_degree'', ''thirddegree''),
     (''homewrecker'', ''sledgehammer''),
     (''sharpened_volcano_fragment'', ''lava_axe''),
     (''postal_pummeler'', ''mailbox''),
     (''huo_long_heater'', ''long_heatmaker''),
     (''fists'', ''gloves''),
     (''gru'', ''gloves_running_urgently''),
     (''fists_of_steel'', ''steel_fists''),
     (''gas_passer'', ''gas_blast''),
     (''vita_saw'', ''battleneedle''),
     (''overdose'', ''proto_syringe''),
     (''hitman_heatmaker'', ''pro_rifle''),
     (''cleaners_carbine'', ''pro_smg''),
     (''kukri'', ''club''),
     (''bushwacka'', ''tribalkukri''),
     (''big_kill'', ''samrevolver''),
     (''l_etranger'', ''letranger''),
     (''your_eternal_reward'', ''eternal_reward''),
     (''conniver_kunai'', ''kunai''),
     (''half_zatoichi'', ''demokatana''),
     (''conscientious_objector'', ''nonnonviolent_protest''),
     (''taunt_guitar_kill'', ''taunt_guitar_kill''),
     (''backscatter'', ''back_scatter''),
     (''nessie_club'', ''nessieclub''),
     (''horseless_headless_horsemann'', ''headtaker''),
     (''sentry_buster'', ''ullapool_caber''),
     (''holy_mackerel'', ''holymackerel''),
     (''pda_engineer'', ''saw_kill''),
     (''tf_projectile_arrow'', ''huntsman''),
     (''cleaver'', ''guillotine'')]"

definition WEAPON_ALIASES :: "(string \<times> string) list" where
  "WEAPON_ALIASES =
    [(''holymackerel'', ''holy_mackerel''),
     (''force-a-nature'', ''force_a_nature''),
     (''lugermorph'', ''maxgun''),
     (''shotgun_soldier'', ''shotgun_primary''),
     (''shotgun_hwg'', ''shotgun_primary''),
     (''shotgun_pyro'', ''shotgun_primary''),
     (''pistol_scout'', ''pistol''),
     (''pistol_engineer'', ''pistol''),
     (''awper_hand'', ''sniperrifle''),
     (''compound_bow'', ''huntsman'')]"

section \<open>The name resolver: \<open>find_weapon_icon\<close>\<close>

text \<open>
  \<open>KilliconDefinition\<close>: a definition read from \<open>mod_textures.txt\<close>. The coordinates
  are whatever \<open>int()\<close> returned, so they are integers and may be negative.
\<close>

record KilliconDefinition =
  kd_name :: string
  kd_sprite :: string
  kd_x :: int
  kd_y :: int
  kd_width :: int
  kd_height :: int

text \<open>\<open>mappings.get(weapon_name, weapon_name)\<close>.\<close>

definition mapped_name_of :: "(string \<times> string) list \<Rightarrow> string \<Rightarrow> string" where
  "mapped_name_of mappings weapon_name =
     (case map_of mappings weapon_name of None \<Rightarrow> weapon_name | Some m \<Rightarrow> m)"

text \<open>
  Step 2, the loop \<open>for suffix in ['_kill', 'death']\<close>: the first suffix whose candidate is
  a key of \<open>definitions\<close> returns.
\<close>

fun suffix_match ::
  "string \<Rightarrow> string list \<Rightarrow> (string \<times> KilliconDefinition) list \<Rightarrow> KilliconDefinition option" where
  "suffix_match mapped_name [] definitions = None"
| "suffix_match mapped_name (sfx # rest) definitions =
     (case map_of definitions (mapped_name @ sfx) of
        Some d \<Rightarrow> Some d
      | None \<Rightarrow> suffix_match mapped_name rest definitions)"

text \<open>
  Step 3, the loop over \<open>definitions.items()\<close>: Python's \<open>a in b\<close> on strings holds when
  \<open>a\<close> is a contiguous part of \<open>b\<close>, which is \<open>sublist a b\<close>.
\<close>

fun partial_match :: "string \<Rightarrow> (string \<times> KilliconDefinition) list \<Rightarrow> KilliconDefinition option" where
  "partial_match mapped_name [] = None"
| "partial_match mapped_name ((def_name, defn) # rest) =
     (if sublist mapped_name def_name \<or> sublist def_name mapped_name then Some defn
      else partial_match mapped_name rest)"

text \<open>
  \<open>find_weapon_icon\<close>, with the two global tables as parameters. The function calls
  itself in step 4 with no bound on the depth, so it is a partial function: the outer
  \<open>None\<close> stands for a call that does not return (in CPython the recursion ends in a
  \<open>RecursionError\<close>), \<open>Some None\<close> for the return value \<open>None\<close>, and
  \<open>Some (Some d)\<close> for a definition.
\<close>

partial_function (option) find_weapon_icon_with ::
  "(string \<times> string) list \<Rightarrow> (string \<times> string) list \<Rightarrow> string
     \<Rightarrow> (string \<times> KilliconDefinition) list \<Rightarrow> KilliconDefinition option option" where
  "find_weapon_icon_with mappings aliases weapon_name definitions =
     (let mapped_name = mapped_name_of mappings weapon_name in
      case map_of definitions mapped_name of
        Some d \<Rightarrow> Some (Some d)
      | None \<Rightarrow>
         (case suffix_match mapped_name [''_kill'', ''death''] definitions of
            Some d \<Rightarrow> Some (Some d)
          | None \<Rightarrow>
             (case partial_match mapped_name definitions of
                Some d \<Rightarrow> Some (Some d)
              | None \<Rightarrow>
                 (case map_of aliases weapon_name of
                    Some canonical \<Rightarrow> find_weapon_icon_with mappings aliases canonical definitions
                  | None \<Rightarrow> Some None))))"

text \<open>The function as the program runs it, on its two tables.\<close>

definition find_weapon_icon ::
  "string \<Rightarrow> (string \<times> KilliconDefinition) list \<Rightarrow> KilliconDefinition option option" where
  "find_weapon_icon = find_weapon_icon_with WEAPON_MAPPINGS WEAPON_ALIASES"

section \<open>The lookup table emitter: \<open>generate_css\<close>\<close>

text \<open>
  \<open>str(n)\<close> of a non-negative integer, as the f-strings format it: the decimal digits,
  no sign and no leading zero. The positions come from \<open>pack_sprites\<close>, whose coordinates
  are never negative.
\<close>

fun str_nat :: "nat \<Rightarrow> string" where
  "str_nat n = (if n < 10 then [''0123456789'' ! n] else str_nat (n div 10) @ [''0123456789'' ! (n mod 10)])"

declare str_nat.simps [simp del]

text \<open>The lines \<open>css_lines\<close> starts with.\<close>

definition css_header :: "string list" where
  "css_header =
     [''/* TF2 Killicons - Auto-generated */'',
      '''',
      ''.killicon {'',
      ''  display: inline-block;'',
      ''  background-image: url('killicons.webp');'',
      ''  background-repeat: no-repeat;'',
      ''  vertical-align: middle;'',
      ''}'',
      '''']"

text \<open>The six lines \<open>css_lines.extend([...])\<close> appends for one name.\<close>

definition css_rule :: "string \<Rightarrow> rect \<Rightarrow> string list" where
  "css_rule weapon_name r =
     (case r of (x, y, width, height) \<Rightarrow>
        [''.killicon-'' @ weapon_name @ '' {'',
         ''  width: '' @ str_nat width @ ''px;'',
         ''  height: '' @ str_nat height @ ''px;'',
         ''  background-position: -'' @ str_nat x @ ''px -'' @ str_nat y @ ''px;'',
         ''}'',
         ''''])"

text \<open>\<open>'\\n'.join(css_lines)\<close>.\<close>

fun join_lines :: "string list \<Rightarrow> string" where
  "join_lines [] = []"
| "join_lines [l] = l"
| "join_lines (l # ls) = l @ [CHR 0x0A] @ join_lines ls"

text \<open>
  The loop over \<open>WEAPON_MAPPINGS.items()\<close> that fills \<open>reverse_mappings\<close> and adds the
  original names to \<open>all_weapons\<close>. The Python set \<open>all_weapons\<close> is a list without
  duplicates: only \<open>sorted\<close> reads it, so its own order plays no part.
\<close>

fun collect_reverse ::
  "(string \<times> string) list \<Rightarrow> (string \<times> rect) list \<Rightarrow> (string \<times> string) list \<times> string list
     \<Rightarrow> (string \<times> string) list \<times> string list" where
  "collect_reverse [] pos acc = acc"
| "collect_reverse ((original, mapped) # rest) pos (reverse_mappings, all_weapons) =
     collect_reverse rest pos
       (if mapped \<in> set (map fst pos)
        then (AList.update original mapped reverse_mappings, List.insert original all_weapons)
        else (reverse_mappings, all_weapons))"

text \<open>
  The loop over \<open>sorted(all_weapons)\<close>. \<open>positions[mapped_name]\<close> raises
  \<open>KeyError\<close> for a missing key; the last branch is the \<open>continue\<close>.
\<close>

fun emit_rules ::
  "string list \<Rightarrow> (string \<times> string) list \<Rightarrow> (string \<times> rect) list \<Rightarrow> string list
     \<Rightarrow> py_error + string list" where
  "emit_rules [] reverse_mappings pos css_lines = Inr css_lines"
| "emit_rules (weapon_name # rest) reverse_mappings pos css_lines =
     (case map_of reverse_mappings weapon_name of
        Some mapped_name \<Rightarrow>
          (case map_of pos mapped_name of
             None \<Rightarrow> Inl KeyError
           | Some r \<Rightarrow> emit_rules rest reverse_mappings pos (css_lines @ css_rule weapon_name r))
      | None \<Rightarrow>
          (case map_of pos weapon_name of
             Some r \<Rightarrow> emit_rules rest reverse_mappings pos (css_lines @ css_rule weapon_name r)
           | None \<Rightarrow> emit_rules rest reverse_mappings pos css_lines))"

text \<open>
  \<open>generate_css\<close>: the result is the text handed to \<open>output_path.write_text\<close>.
\<close>

definition generate_css :: "(string \<times> rect) list \<Rightarrow> py_error + string" where
  "generate_css pos =
     (let css_lines = css_header;
          all_weapons = remdups (map fst pos);
          (reverse_mappings, all_weapons) =
             collect_reverse WEAPON_MAPPINGS pos ([], all_weapons)
      in case emit_rules (sort all_weapons) reverse_mappings pos css_lines of
           Inl e \<Rightarrow> Inl e
         | Inr css_lines \<Rightarrow> Inr (join_lines css_lines))"

section \<open>The definition parser: \<open>parse_mod_textures\<close>, \<open>parse_community_mod_textures\<close>\<close>

text \<open>
  Python strings. A character is a code point below 256; text with other code points is
  outside the model. \<open>str.isspace\<close>, which \<open>str.strip()\<close> and the \<open>\s\<close> of \<open>re\<close>
  use, holds for the code points 9 to 13, 28 to 32, 133 and 160.
\<close>

definition py_isspace :: "char \<Rightarrow> bool" where
  "py_isspace c \<longleftrightarrow> (of_char c :: nat) \<in> {9, 10, 11, 12, 13, 28, 29, 30, 31, 32, 133, 160}"

definition strip :: "string \<Rightarrow> string" where
  "strip s = rev (dropWhile py_isspace (rev (dropWhile py_isspace s)))"

text \<open>
  \<open>str.lower()\<close>: the letters A to Z, and the upper-case letters of U+00C0 to U+00DE,
  move up by 32.
\<close>

definition lower_char :: "char \<Rightarrow> char" where
  "lower_char c =
     (let n = (of_char c :: nat)
      in if (65 \<le> n \<and> n \<le> 90) \<or> (192 \<le> n \<and> n \<le> 222 \<and> n \<noteq> 215) then char_of (n + 32) else c)"

definition py_lower :: "string \<Rightarrow> string" where
  "py_lower s = map lower_char s"

text \<open>
  \<open>s.split(sep)\<close> for a separator of one character: the parts between the separators,
  never an empty list.
\<close>

fun split_on :: "char \<Rightarrow> string \<Rightarrow> string list" where
  "split_on sep [] = [[]]"
| "split_on sep (c # cs) =
     (if c = sep then [] # split_on sep cs
      else (case split_on sep cs of [] \<Rightarrow> [[c]] | p # ps \<Rightarrow> (c # p) # ps))"

text \<open>
  \<open>s.replace(old, new)\<close> for a non-empty \<open>old\<close>: every occurrence, left to right,
  without overlap. The program never calls it with an empty \<open>old\<close>.
\<close>

function py_replace :: "string \<Rightarrow> string \<Rightarrow> string \<Rightarrow> string" where
  "py_replace old new s =
     (if old = [] \<or> s = [] then s
      else if prefix old s then new @ py_replace old new (drop (length old) s)
      else hd s # py_replace old new (tl s))"
  by pat_completeness auto
termination
  by (relation "measure (\<lambda>(old, new, s). length s)") auto

declare py_replace.simps [simp del]

text \<open>
  \<open>int(s)\<close> on a string: white space at both ends is dropped (of the characters below
  127 only 9 to 13 and 32 count here), then an optional sign, then decimal digits, where
  single underscores may stand between digits. Anything else raises \<open>ValueError\<close>, and so
  does a numeral of more than 4300 digits (the interpreter's default limit). \<open>None\<close> is
  the \<open>ValueError\<close>.
\<close>

definition is_digit :: "char \<Rightarrow> bool" where
  "is_digit c \<longleftrightarrow> c \<in> set ''0123456789''"

fun read_digits :: "string \<Rightarrow> string option" where
  "read_digits [] = None"
| "read_digits [c] = (if is_digit c then Some [c] else None)"
| "read_digits (c # d # cs) =
     (if \<not> is_digit c then None
      else if d = CHR ''_'' then map_option ((#) c) (read_digits cs)
      else map_option ((#) c) (read_digits (d # cs)))"

definition digit_value :: "char \<Rightarrow> nat" where
  "digit_value c = of_char c - 48"

definition decimal_value :: "string \<Rightarrow> nat" where
  "decimal_value s = foldl (\<lambda>a c. 10 * a + digit_value c) 0 s"

definition int_isspace :: "char \<Rightarrow> bool" where
  "int_isspace c \<longleftrightarrow> (of_char c :: nat) \<in> {9, 10, 11, 12, 13, 32, 133, 160}"

definition int_max_str_digits :: nat where
  "int_max_str_digits = 4300"

definition py_int :: "string \<Rightarrow> int option" where
  "py_int s =
     (let t = rev (dropWhile int_isspace (rev (dropWhile int_isspace s)));
          negative = (t \<noteq> [] \<and> hd t = CHR ''-'');
          body = (if t \<noteq> [] \<and> (hd t = CHR ''-'' \<or> hd t = CHR ''+'') then tl t else t)
      in case read_digits body of
           None \<Rightarrow> None
         | Some ds \<Rightarrow>
             if int_max_str_digits < length ds then None
             else Some (if negative then - int (decimal_value ds) else int (decimal_value ds)))"

text \<open>
  \<open>re.match(r'"([^"]+)"', s)\<close>: a quote, one or more characters that are not a quote,
  and a quote, at the start of \<open>s\<close>. The result is the group and the text after the
  match.
\<close>

definition quote :: char where
  "quote = CHR 0x22"

definition match_quoted :: "string \<Rightarrow> (string \<times> string) option" where
  "match_quoted s =
     (case s of
        [] \<Rightarrow> None
      | c # cs \<Rightarrow>
          if c \<noteq> quote then None
          else let g = takeWhile (\<lambda>c. c \<noteq> quote) cs;
                   r = dropWhile (\<lambda>c. c \<noteq> quote) cs
               in if g = [] \<or> r = [] then None else Some (g, tl r))"

text \<open>
  \<open>re.match(r'"([^"]+)"\s+"([^"]+)"', s)\<close>: the groups \<open>key, value\<close>.
\<close>

definition match_prop :: "string \<Rightarrow> (string \<times> string) option" where
  "match_prop s =
     (case match_quoted s of
        None \<Rightarrow> None
      | Some (key, r) \<Rightarrow>
          if takeWhile py_isspace r = [] then None
          else (case match_quoted (dropWhile py_isspace r) of
                  None \<Rightarrow> None
                | Some (val, r') \<Rightarrow> Some (key, val)))"

text \<open>
  The property loop, from the line after the opening brace: it stops at the first line
  that has a closing brace, or at the end of the text, and returns \<open>props\<close> with the
  lines from where it stopped.
\<close>

fun collect_props ::
  "string list \<Rightarrow> (string \<times> string) list \<Rightarrow> (string \<times> string) list \<times> string list" where
  "collect_props [] props = (props, [])"
| "collect_props (l # ls) props =
     (let prop_line = strip l
      in if CHR ''}'' \<in> set prop_line then (props, l # ls)
         else (case match_prop prop_line of
                 Some (key, val) \<Rightarrow> collect_props ls (AList.update (py_lower key) val props)
               | None \<Rightarrow> collect_props ls props))"

lemma collect_props_length: "length (snd (collect_props ls props)) \<le> length ls"
  by (induction ls arbitrary: props) (auto simp: Let_def split: option.splits intro: le_SucI)

text \<open>
  The outer \<open>while i < len(lines)\<close> loop of \<open>parse_mod_textures\<close> and of
  \<open>parse_community_mod_textures\<close>, on the lines from index \<open>i\<close> on. The two functions
  have the same loop and differ in the test of the name line and in what they do with a
  block, the parameters \<open>is_name\<close> and \<open>block\<close>. \<open>acc\<close> is what the loop builds.
\<close>

function parse_blocks ::
  "(string \<Rightarrow> bool) \<Rightarrow> (string \<Rightarrow> (string \<times> string) list \<Rightarrow> 'a \<Rightarrow> 'a) \<Rightarrow> string list \<Rightarrow> 'a \<Rightarrow> 'a" where
  "parse_blocks is_name block [] acc = acc"
| "parse_blocks is_name block (l # rest) acc =
     (let line = strip l
      in if is_name line then
           (case match_quoted line of
              Some m \<Rightarrow>
                (let weapon_name = fst m;
                     after_brace = drop 1 (dropWhile (\<lambda>l. CHR ''{'' \<notin> set l) rest);
                     collected = collect_props after_brace []
                 in parse_blocks is_name block (drop 1 (snd collected))
                      (block weapon_name (fst collected) acc))
            | None \<Rightarrow> parse_blocks is_name block rest acc)
         else parse_blocks is_name block rest acc)"
  by pat_completeness auto
termination
proof (relation "measure (\<lambda>(is_name, block, ls, acc). length ls)")
  show "wf (measure (\<lambda>(is_name, block, ls, acc). length ls))" by simp
next
  fix is_name :: "string \<Rightarrow> bool" and block :: "string \<Rightarrow> (string \<times> string) list \<Rightarrow> 'a \<Rightarrow> 'a"
    and l rest and acc :: 'a and x xa xb xc xd
  assume "xc = drop 1 (dropWhile (\<lambda>l. CHR ''{'' \<notin> set l) rest)" "xd = collect_props xc []"
  then have "length (snd xd) \<le> length rest"
    using collect_props_length[of xc "[]"] length_dropWhile_le[of "\<lambda>l. CHR ''{'' \<notin> set l" rest]
    by simp
  then show "((is_name, block, drop 1 (snd xd), block xb (fst xd) acc), is_name, block, l # rest, acc)
      \<in> measure (\<lambda>(is_name, block, ls, acc). length ls)"
    by simp
qed auto

text \<open>
  The \<open>ValueError\<close> of \<open>int()\<close>, with the literal it rejected, and the warning
  \<open>print(f"Warning: Could not parse coordinates for {weapon_name}: {e}")\<close>.
\<close>

datatype parse_error = ValueError string

datatype warning = CouldNotParse string parse_error

text \<open>
  \<open>int(props.get(key, default))\<close>: the default when the key is absent, else \<open>int\<close> of
  the value.
\<close>

definition int_prop :: "(string \<times> string) list \<Rightarrow> string \<Rightarrow> int \<Rightarrow> parse_error + int" where
  "int_prop props key dflt =
     (case map_of props key of
        None \<Rightarrow> Inr dflt
      | Some v \<Rightarrow> (case py_int v of None \<Rightarrow> Inl (ValueError v) | Some i \<Rightarrow> Inr i))"

text \<open>
  The four assignments of the \<open>try\<close> block, in order; the first \<open>ValueError\<close> leaves
  the block.
\<close>

definition read_coordinates :: "(string \<times> string) list \<Rightarrow> parse_error + (int \<times> int \<times> int \<times> int)" where
  "read_coordinates props =
     (case int_prop props ''x'' 0 of
        Inl e \<Rightarrow> Inl e
      | Inr x \<Rightarrow>
         (case int_prop props ''y'' 0 of
            Inl e \<Rightarrow> Inl e
          | Inr y \<Rightarrow>
             (case int_prop props ''width'' 32 of
                Inl e \<Rightarrow> Inl e
              | Inr width \<Rightarrow>
                 (case int_prop props ''height'' 32 of
                    Inl e \<Rightarrow> Inl e
                  | Inr height \<Rightarrow> Inr (x, y, width, height)))))"

text \<open>
  The \<open>try\<close> block: the coordinates and the \<open>KilliconDefinition\<close>, or the caught
  error.
\<close>

definition make_definition ::
  "string \<Rightarrow> string \<Rightarrow> (string \<times> string) list \<Rightarrow> parse_error + KilliconDefinition" where
  "make_definition weapon_name sprite props =
     (case read_coordinates props of
        Inl e \<Rightarrow> Inl e
      | Inr (x, y, width, height) \<Rightarrow>
          Inr \<lparr>kd_name = weapon_name, kd_sprite = sprite,
               kd_x = x, kd_y = y, kd_width = width, kd_height = height\<rparr>)"

text \<open>
  What \<open>parse_mod_textures\<close> makes of a block: nothing without a \<open>dfile\<close> that
  starts with \<open>HUD/d_images\<close>, else the definition or the caught error.
\<close>

definition mod_definition ::
  "string \<Rightarrow> (string \<times> string) list \<Rightarrow> (parse_error + KilliconDefinition) option" where
  "mod_definition weapon_name props =
     (case map_of props ''dfile'' of
        None \<Rightarrow> None
      | Some dfile \<Rightarrow>
          if prefix ''HUD/d_images'' dfile
          then Some (make_definition weapon_name (py_lower (py_replace ''HUD/'' [] dfile)) props)
          else None)"

text \<open>
  What \<open>parse_community_mod_textures\<close> makes of a block: nothing unless the lower-cased
  \<open>dfile\<close> contains \<open>improvedkillicons\<close>.
\<close>

definition community_definition ::
  "string \<Rightarrow> (string \<times> string) list \<Rightarrow> (parse_error + KilliconDefinition) option" where
  "community_definition weapon_name props =
     (case map_of props ''dfile'' of
        None \<Rightarrow> None
      | Some dfile \<Rightarrow>
          if sublist ''improvedkillicons'' (py_lower dfile)
          then let parts = split_on CHR ''/'' (py_replace [CHR 0x5C] ''/'' dfile);
                   sprite_file = last parts;
                   sprite_name = ''community_'' @ sprite_file
               in Some (make_definition weapon_name sprite_name props)
          else None)"

text \<open>
  What a parser builds: \<open>definitions\<close> and the warnings it printed.
  \<open>parse_mod_textures\<close> prints a warning in its \<open>except\<close> branch;
  \<open>parse_community_mod_textures\<close> has \<open>pass\<close> there.
\<close>

type_synonym parse_state = "(string \<times> KilliconDefinition) list \<times> warning list"

definition mod_block :: "string \<Rightarrow> (string \<times> string) list \<Rightarrow> parse_state \<Rightarrow> parse_state" where
  "mod_block weapon_name props acc =
     (case mod_definition weapon_name props of
        None \<Rightarrow> acc
      | Some (Inr d) \<Rightarrow> (AList.update weapon_name d (fst acc), snd acc)
      | Some (Inl e) \<Rightarrow> (fst acc, snd acc @ [CouldNotParse weapon_name e]))"

definition community_block :: "string \<Rightarrow> (string \<times> string) list \<Rightarrow> parse_state \<Rightarrow> parse_state" where
  "community_block weapon_name props acc =
     (case community_definition weapon_name props of
        None \<Rightarrow> acc
      | Some (Inr d) \<Rightarrow> (AList.update weapon_name d (fst acc), snd acc)
      | Some (Inl e) \<Rightarrow> acc)"

text \<open>
  The test of a name line: \<open>line.startswith('"') and not line.startswith('"/')\<close>, and
  in the community parser also \<open>not line.startswith('//')\<close>.
\<close>

definition mod_name_line :: "string \<Rightarrow> bool" where
  "mod_name_line line \<longleftrightarrow> prefix [quote] line \<and> \<not> prefix [quote, CHR ''/''] line"

definition community_name_line :: "string \<Rightarrow> bool" where
  "community_name_line line \<longleftrightarrow>
     prefix [quote] line \<and> \<not> prefix [quote, CHR ''/''] line \<and> \<not> prefix ''//'' line"

text \<open>
  \<open>parse_mod_textures\<close> on the text of \<open>scripts/mod_textures.txt\<close>, or \<open>None\<close>
  when the archive has no such entry (\<open>sys.exit(1)\<close>); \<open>parse_community_mod_textures\<close>
  on the text of the file, or \<open>None\<close> when the file does not exist (it returns \<open>{}\<close>).
\<close>

datatype 'a run = Exit nat | Returns 'a

definition parse_mod_textures :: "string option \<Rightarrow> parse_state run" where
  "parse_mod_textures entry =
     (case entry of
        None \<Rightarrow> Exit 1
      | Some content \<Rightarrow> Returns (parse_blocks mod_name_line mod_block (split_on CHR 0x0A content) ([], [])))"

definition parse_community_mod_textures :: "string option \<Rightarrow> parse_state" where
  "parse_community_mod_textures file =
     (case file of
        None \<Rightarrow> ([], [])
      | Some content \<Rightarrow> parse_blocks community_name_line community_block (split_on CHR 0x0A content) ([], []))"

section \<open>Vocabulary of the properties\<close>

text \<open>
  Two rects intersect when their interiors meet. \<open>in_layout\<close> says where a placed rect
  lies with respect to the cursors: within the width reached so far, and either above the
  current row or in it, left of the cursor and within the row height. \<open>pack_inv\<close> is the
  invariant of the first pass.
\<close>

definition intersects :: "rect \<Rightarrow> rect \<Rightarrow> bool" where
  "intersects r1 r2 =
     (case r1 of (x1, y1, w1, h1) \<Rightarrow> case r2 of (x2, y2, w2, h2) \<Rightarrow>
        x1 < x2 + w2 \<and> x2 < x1 + w1 \<and> y1 < y2 + h2 \<and> y2 < y1 + h1)"

definition in_layout :: "pack_state \<Rightarrow> rect \<Rightarrow> bool" where
  "in_layout s r =
     (case r of (x, y, w, h) \<Rightarrow>
        x + w \<le> max_width s \<and>
        (y + h \<le> current_y s \<or>
         (y = current_y s \<and> x + w \<le> current_x s \<and> h \<le> row_height s)))"

definition pack_inv :: "pack_state \<Rightarrow> bool" where
  "pack_inv s \<longleftrightarrow>
     (\<forall>n r. map_of (positions s) n = Some r \<longrightarrow> in_layout s r) \<and>
     (\<forall>n1 n2 r1 r2. n1 \<noteq> n2 \<and> map_of (positions s) n1 = Some r1 \<and> map_of (positions s) n2 = Some r2
         \<longrightarrow> \<not> intersects r1 r2)"

text \<open>
  The current row as a list of the entries placed in it: a ghost of the first pass, reset
  where the pass starts a new row.
\<close>

definition place_row :: "pack_state \<times> icon_entry list \<Rightarrow> icon_entry \<Rightarrow> pack_state \<times> icon_entry list" where
  "place_row sr e =
     (place (fst sr) e, (if starts_new_row (fst sr) (fst (snd e)) then [] else snd sr) @ [e])"

text \<open>Steps 1 to 3 of the resolver, for one name: the steps that do not follow an alias.\<close>

definition direct_match ::
  "(string \<times> string) list \<Rightarrow> string \<Rightarrow> (string \<times> KilliconDefinition) list \<Rightarrow> KilliconDefinition option" where
  "direct_match mappings weapon_name definitions =
     (let mapped_name = mapped_name_of mappings weapon_name in
      case map_of definitions mapped_name of
        Some d \<Rightarrow> Some d
      | None \<Rightarrow>
         (case suffix_match mapped_name [''_kill'', ''death''] definitions of
            Some d \<Rightarrow> Some d
          | None \<Rightarrow> partial_match mapped_name definitions))"

text \<open>
  The lookup table emitter in the words of its contract: the exported names, the rect
  emitted for a name, the rules in ascending order of name, and the text of a rule list.
\<close>

definition exported_names :: "(string \<times> rect) list \<Rightarrow> string set" where
  "exported_names pos =
     fst ` set pos \<union> {n. \<exists>m. map_of WEAPON_MAPPINGS n = Some m \<and> m \<in> fst ` set pos}"

definition emitted_rect :: "(string \<times> rect) list \<Rightarrow> string \<Rightarrow> rect option" where
  "emitted_rect pos n =
     (case map_of WEAPON_MAPPINGS n of
        None \<Rightarrow> map_of pos n
      | Some m \<Rightarrow> (case map_of pos m of None \<Rightarrow> map_of pos n | Some r \<Rightarrow> Some r))"

definition css_rules :: "(string \<times> rect) list \<Rightarrow> (string \<times> rect) list" where
  "css_rules pos =
     List.map_filter (\<lambda>n. map_option (Pair n) (emitted_rect pos n))
       (sorted_list_of_set (exported_names pos))"

text \<open>
  The style sheet in the words of its contract, written without the functions of
  \<open>generate_css\<close>: a text is its lines with a newline between them; the header; the six
  lines of the rule of a name and rect, with the width and height in pixels and the
  background offsets written with a minus sign.
\<close>

definition text_of_lines :: "string list \<Rightarrow> string" where
  "text_of_lines ls = butlast (concat (map (\<lambda>l. l @ [CHR 0x0A]) ls))"

definition sheet_header :: "string list" where
  "sheet_header =
     [''/* TF2 Killicons - Auto-generated */'',
      '''',
      ''.killicon {'',
      ''  display: inline-block;'',
      ''  background-image: url('killicons.webp');'',
      ''  background-repeat: no-repeat;'',
      ''  vertical-align: middle;'',
      ''}'',
      '''']"

definition rule_text :: "string \<times> rect \<Rightarrow> string list" where
  "rule_text e =
     (case e of (n, x, y, w, h) \<Rightarrow>
        [''.killicon-'' @ n @ '' {'',
         ''  width: '' @ str_nat w @ ''px;'',
         ''  height: '' @ str_nat h @ ''px;'',
         ''  background-position: -'' @ str_nat x @ ''px -'' @ str_nat y @ ''px;'',
         ''}'',
         ''''])"

text \<open>
  The number a numeral of the style sheet denotes. \<open>read_decimal\<close> reads a non-empty
  string of the digits 0 to 9 and nothing else; \<open>read_offset\<close> reads such a numeral with
  an optional minus sign in front.
\<close>

definition digit_of :: "char \<Rightarrow> nat option" where
  "digit_of c =
     map_of [(CHR ''0'', 0), (CHR ''1'', 1), (CHR ''2'', 2), (CHR ''3'', 3), (CHR ''4'', 4),
             (CHR ''5'', 5), (CHR ''6'', 6), (CHR ''7'', 7), (CHR ''8'', 8), (CHR ''9'', 9)] c"

definition read_digit :: "nat option \<Rightarrow> char \<Rightarrow> nat option" where
  "read_digit a c = (case a of None \<Rightarrow> None | Some v \<Rightarrow> map_option (\<lambda>d. 10 * v + d) (digit_of c))"

definition read_decimal :: "string \<Rightarrow> nat option" where
  "read_decimal s = (if s = [] then None else foldl read_digit (Some 0) s)"

definition read_offset :: "string \<Rightarrow> int option" where
  "read_offset s =
     (case s of
        [] \<Rightarrow> None
      | c # ds \<Rightarrow>
          if c = CHR ''-'' then map_option (\<lambda>v. - int v) (read_decimal ds)
          else map_option int (read_decimal s))"

text \<open>The lines the emit loop has built for a rule list.\<close>

definition render_lines :: "(string \<times> rect) list \<Rightarrow> string list" where
  "render_lines rules = css_header @ concat (map (\<lambda>(n, r). css_rule n r) rules)"

text \<open>The rect the emit loop reads for a name, given \<open>reverse_mappings\<close>.\<close>

definition rect_via :: "(string \<times> string) list \<Rightarrow> (string \<times> rect) list \<Rightarrow> string \<Rightarrow> rect option" where
  "rect_via rm pos n = (case map_of rm n of None \<Rightarrow> map_of pos n | Some m \<Rightarrow> map_of pos m)"

text \<open>
  The definition parser in the words of its contract: the properties of a block body,
  the shape of a block in the text, and what it means for a numeric property to take a
  value or to be unparsable.
\<close>

definition prop_step :: "(string \<times> string) list \<Rightarrow> string \<Rightarrow> (string \<times> string) list" where
  "prop_step props l =
     (case match_prop (strip l) of
        None \<Rightarrow> props
      | Some (key, val) \<Rightarrow> AList.update (py_lower key) val props)"

definition block_props :: "string list \<Rightarrow> (string \<times> string) list" where
  "block_props body = foldl prop_step [] body"

definition is_block ::
  "(string \<Rightarrow> bool) \<Rightarrow> string \<Rightarrow> string \<Rightarrow> string list \<Rightarrow> string \<Rightarrow> string list \<Rightarrow> string \<Rightarrow> bool" where
  "is_block is_name weapon_name name_line gap open_line body close_line \<longleftrightarrow>
     is_name (strip name_line) \<and>
     map_option fst (match_quoted (strip name_line)) = Some weapon_name \<and>
     list_all (\<lambda>l. CHR ''{'' \<notin> set l) gap \<and>
     CHR ''{'' \<in> set open_line \<and>
     list_all (\<lambda>l. CHR ''}'' \<notin> set l) body \<and>
     CHR ''}'' \<in> set close_line"

definition coordinate :: "(string \<times> string) list \<Rightarrow> string \<Rightarrow> int \<Rightarrow> int \<Rightarrow> bool" where
  "coordinate props key dflt i \<longleftrightarrow>
     (case map_of props key of None \<Rightarrow> i = dflt | Some v \<Rightarrow> py_int v = Some i)"

definition unparsable :: "(string \<times> string) list \<Rightarrow> string \<Rightarrow> bool" where
  "unparsable props key \<longleftrightarrow> (case map_of props key of None \<Rightarrow> False | Some v \<Rightarrow> py_int v = None)"

text \<open>Texts for the examples.\<close>

definition quoted :: "string \<Rightarrow> string" where
  "quoted s = quote # s @ [quote]"

definition bad_block :: "string list" where
  "bad_block =
     [quoted ''bad'',
      ''{'',
      ''  '' @ quoted ''dfile'' @ ''  '' @ quoted ''HUD/d_images'',
      ''  '' @ quoted ''y'' @ ''  '' @ quoted ''abc'',
      ''}'']"

definition club_block :: "string list" where
  "club_block =
     [quoted ''club'',
      ''{'',
      ''  '' @ quoted ''dfile'' @ ''  '' @ quoted ''HUD/d_images'',
      ''}'']"

definition community_bad_block :: "string list" where
  "community_bad_block =
     [quoted ''bad'',
      ''{'',
      ''  '' @ quoted ''dfile'' @ ''  '' @ quoted ''vgui/logos/improvedkillicons/d'',
      ''  '' @ quoted ''y'' @ ''  '' @ quoted ''abc'',
      ''}'']"

section \<open>The sprite packer: layout\<close>

lemma pack_inv_init: "pack_inv init_state"
  by (simp add: pack_inv_def init_state_def)

lemma pack_inv_place:
  assumes "pack_inv s"
  shows "pack_inv (place s e)"
proof -
  obtain n img ow oh where e: "e = (n, img, ow, oh)" by (cases e) auto
  define s1 where "s1 = (if starts_new_row s img then next_row s else s)"
  define r where "r = (current_x s1, current_y s1, img_width img, img_height img)"
  have pos1: "positions s1 = positions s"
    by (simp add: s1_def next_row_def)
  have old1: "in_layout (s1\<lparr>max_width := max_width s\<rparr>) q" if "map_of (positions s) m = Some q" for m q
  proof -
    have "in_layout s q" using assms that unfolding pack_inv_def by blast
    then show ?thesis
      by (cases q) (auto simp: in_layout_def s1_def next_row_def)
  qed
  have mw1: "max_width s1 = max_width s" by (simp add: s1_def next_row_def)
  have sep: "\<not> intersects r q \<and> \<not> intersects q r" if "map_of (positions s) m = Some q" for m q
    using old1[OF that] by (cases q) (auto simp: in_layout_def intersects_def r_def mw1)
  have s': "place s e = s1\<lparr>positions := AList.update n r (positions s),
       current_x := current_x s1 + img_width img,
       row_height := max (row_height s1) (img_height img),
       max_width := max (max_width s) (current_x s1 + img_width img)\<rparr>"
    by (simp add: place_def e s1_def r_def Let_def next_row_def)
  have lay_new: "in_layout (place s e) r"
    by (simp add: s' in_layout_def r_def)
  have lay_old: "in_layout (place s e) q" if "map_of (positions s) m = Some q" for m q
    using old1[OF that] by (cases q) (auto simp: s' in_layout_def)
  show ?thesis
    unfolding pack_inv_def
  proof (intro conjI allI impI)
    fix m q assume "map_of (positions (place s e)) m = Some q"
    then have "q = r \<or> map_of (positions s) m = Some q"
      by (auto simp: s' update_conv' split: if_splits)
    then show "in_layout (place s e) q" using lay_new lay_old by blast
  next
    fix n1 n2 r1 r2
    assume a: "n1 \<noteq> n2 \<and> map_of (positions (place s e)) n1 = Some r1 \<and>
      map_of (positions (place s e)) n2 = Some r2"
    then have c1: "(n1 = n \<and> r1 = r) \<or> (n1 \<noteq> n \<and> map_of (positions s) n1 = Some r1)"
      and c2: "(n2 = n \<and> r2 = r) \<or> (n2 \<noteq> n \<and> map_of (positions s) n2 = Some r2)"
      by (auto simp: s' update_conv' split: if_splits)
    from a have ne: "n1 \<noteq> n2" by simp
    from c1 c2 ne show "\<not> intersects r1 r2"
      using sep assms unfolding pack_inv_def by blast
  qed
qed

lemma pack_inv_foldl: "pack_inv s \<Longrightarrow> pack_inv (foldl place s xs)"
  by (induction xs arbitrary: s) (auto simp: pack_inv_place)

lemma pack_inv_first_pass: "pack_inv (first_pass icons)"
  by (simp add: first_pass_def pack_inv_foldl pack_inv_init)



lemma positions_place_keys:
  "fst ` set (positions (place s e)) = insert (fst e) (fst ` set (positions s))"
  by (simp add: place_def Let_def next_row_def dom_update)

lemma positions_foldl_keys:
  "fst ` set (positions (foldl place s xs)) = fst ` set (positions s) \<union> fst ` set xs"
  by (induction xs arbitrary: s) (auto simp: positions_place_keys)

lemma set_sorted_icons: "set (sorted_icons icons) = set icons"
  by (simp add: sorted_icons_def)

lemma first_pass_keys: "fst ` set (positions (first_pass icons)) = fst ` set icons"
  by (simp add: first_pass_def positions_foldl_keys set_sorted_icons init_state_def)

lemma distinct_place:
  "distinct (map fst (positions s)) \<Longrightarrow> distinct (map fst (positions (place s e)))"
  by (simp add: place_def Let_def next_row_def distinct_update)

lemma distinct_foldl_place:
  "distinct (map fst (positions s)) \<Longrightarrow> distinct (map fst (positions (foldl place s xs)))"
  by (induction xs arbitrary: s) (auto simp: distinct_place)

lemma distinct_first_pass: "distinct (map fst (positions (first_pass icons)))"
  by (simp add: first_pass_def distinct_foldl_place init_state_def)

lemma paste_icons_total:
  "fst ` set pos \<subseteq> fst ` set icons \<Longrightarrow>
   paste_icons icons pos sprite =
     Inr (sprite\<lparr>pastes := pastes sprite @ map (\<lambda>(n, x, y, w, h). (fst (the (map_of icons n)), x, y)) pos\<rparr>)"
proof (induction pos arbitrary: sprite)
  case Nil
  then show ?case by simp
next
  case (Cons p pos)
  obtain n x y w h where p: "p = (n, x, y, w, h)" by (cases p) auto
  from Cons.prems have "n \<in> fst ` set icons" by (auto simp: p)
  then obtain entry where e: "map_of icons n = Some entry"
    by (metis domD dom_map_of_conv_image_fst)
  from Cons.prems have sub: "fst ` set pos \<subseteq> fst ` set icons" by auto
  show ?case
    by (simp add: p e Cons.IH[OF sub])
qed

lemma add_aliases_step:
  "add_aliases ((a, c) # rest) pos =
     add_aliases rest (case map_of pos c of None \<Rightarrow> pos | Some r \<Rightarrow> AList.update a r pos)"
  by simp

lemma add_aliases_other:
  "k \<notin> fst ` set al \<Longrightarrow> map_of (add_aliases al pos) k = map_of pos k"
proof (induction al arbitrary: pos)
  case Nil
  then show ?case by simp
next
  case (Cons p al)
  obtain a c where p: "p = (a, c)" by (cases p) auto
  from Cons.prems have ne: "k \<noteq> a" and notin: "k \<notin> fst ` set al" by (auto simp: p)
  define pos' where "pos' = (case map_of pos c of None \<Rightarrow> pos | Some r \<Rightarrow> AList.update a r pos)"
  have "map_of pos' k = map_of pos k"
    using ne by (simp add: pos'_def update_conv' split: option.splits)
  with Cons.IH[OF notin, of pos'] show ?case
    by (simp add: p pos'_def)
qed

lemma add_aliases_ran:
  "map_of (add_aliases al pos) k = Some r \<Longrightarrow> \<exists>m. map_of pos m = Some r"
proof (induction al arbitrary: pos)
  case Nil
  then show ?case by auto
next
  case (Cons p al)
  obtain a c where p: "p = (a, c)" by (cases p) auto
  define pos' where "pos' = (case map_of pos c of None \<Rightarrow> pos | Some r \<Rightarrow> AList.update a r pos)"
  from Cons.prems have "map_of (add_aliases al pos') k = Some r"
    by (simp add: p pos'_def)
  from Cons.IH[OF this] obtain m where m: "map_of pos' m = Some r" by blast
  show ?case
  proof (cases "map_of pos c")
    case None
    with m show ?thesis by (auto simp: pos'_def)
  next
    case (Some q)
    with m have "((map_of pos)(a \<mapsto> q)) m = Some r"
      by (simp add: pos'_def update_conv')
    then have "map_of pos m = Some r \<or> q = r"
      by (cases "m = a") auto
    with Some show ?thesis by blast
  qed
qed

lemma distinct_add_aliases:
  "distinct (map fst pos) \<Longrightarrow> distinct (map fst (add_aliases al pos))"
  by (induction al pos rule: add_aliases.induct) (auto simp: distinct_update split: option.splits)



lemma first_pass_bounds:
  assumes "map_of (positions (first_pass icons)) n = Some (x, y, w, h)"
  shows "x + w \<le> max_width (first_pass icons)"
    and "y + h \<le> current_y (first_pass icons) + row_height (first_pass icons)"
proof -
  have "in_layout (first_pass icons) (x, y, w, h)"
    using pack_inv_first_pass assms unfolding pack_inv_def by blast
  then show "x + w \<le> max_width (first_pass icons)"
    and "y + h \<le> current_y (first_pass icons) + row_height (first_pass icons)"
    by (auto simp: in_layout_def)
qed

lemma pack_sprites_result:
  "pack_sprites icons aliases =
     Inr (if icons = [] then \<lparr>sheet_width = 1, sheet_height = 1, pastes = []\<rparr>
          else \<lparr>sheet_width = max_width (first_pass icons),
                sheet_height = current_y (first_pass icons) + row_height (first_pass icons),
                pastes = map (\<lambda>(n, x, y, w, h). (fst (the (map_of icons n)), x, y)) (positions (first_pass icons))\<rparr>,
          if icons = [] then [] else add_aliases aliases (positions (first_pass icons)))"
proof (cases "icons = []")
  case True
  then show ?thesis by (simp add: pack_sprites_def)
next
  case False
  have "fst ` set (positions (first_pass icons)) \<subseteq> fst ` set icons"
    by (simp add: first_pass_keys)
  from paste_icons_total[OF this] False show ?thesis
    by (simp add: pack_sprites_def Let_def)
qed




lemma fst_foldl_place_row: "fst (foldl place_row sr es) = foldl place (fst sr) es"
  by (induction es arbitrary: sr) (simp_all add: place_row_def)

lemma snd_foldl_place_row_nonempty: "es \<noteq> [] \<Longrightarrow> snd (foldl place_row sr es) \<noteq> []"
  by (induction es arbitrary: sr rule: rev_induct) (simp_all add: place_row_def)

lemma current_row_empty_iff: "snd (foldl place_row (s, []) es) = [] \<longleftrightarrow> es = []"
  using snd_foldl_place_row_nonempty[of es "(s, [])"] by (cases "es = []") auto

lemma current_x_place:
  "current_x (place s e) =
     (if starts_new_row s (fst (snd e)) then 0 else current_x s) + img_width (fst (snd e))"
  by (simp add: place_def Let_def next_row_def)

lemma current_y_place:
  "current_y (place s e) =
     (if starts_new_row s (fst (snd e)) then current_y s + row_height s else current_y s)"
  by (simp add: place_def Let_def next_row_def)

lemma row_height_place:
  "row_height (place s e) =
     max (if starts_new_row s (fst (snd e)) then 0 else row_height s) (img_height (fst (snd e)))"
  by (simp add: place_def Let_def next_row_def)

lemma position_place:
  "map_of (positions (place s e)) (fst e) =
     Some (if starts_new_row s (fst (snd e)) then 0 else current_x s,
           if starts_new_row s (fst (snd e)) then current_y s + row_height s else current_y s,
           img_width (fst (snd e)), img_height (fst (snd e)))"
  by (simp add: place_def Let_def next_row_def update_conv')

lemma current_x_positive:
  assumes "\<forall>p \<in> set pre. 0 < img_width (fst (snd p))"
  shows "0 < current_x (foldl place init_state pre) \<longleftrightarrow> pre \<noteq> []"
  using assms
proof (induction pre rule: rev_induct)
  case Nil
  then show ?case by (simp add: init_state_def)
next
  case (snoc e pre)
  then have "0 < img_width (fst (snd e))" by simp
  then show ?case by (simp add: current_x_place)
qed

lemma sorted_icons_mset: "mset (sorted_icons icons) = mset icons"
  by (simp add: sorted_icons_def)

lemma sorted_icons_descending:
  "sorted (rev (map (\<lambda>e. img_height (fst (snd e))) (sorted_icons icons)))"
  by (simp add: sorted_icons_def rev_map)

lemma sorted_icons_stable:
  "filter (\<lambda>e. img_height (fst (snd e)) = k) (sorted_icons icons) =
   filter (\<lambda>e. img_height (fst (snd e)) = k) icons"
  by (simp add: sorted_icons_def rev_filter[symmetric] sort_key_stable)

lemma pack_example:
  "pack_sprites [(''a'', \<lparr>img_width = 300, img_height = 40\<rparr>, 300, 40),
                 (''b'', \<lparr>img_width = 300, img_height = 20\<rparr>, 300, 20)] [] =
     Inr (\<lparr>sheet_width = 300, sheet_height = 60,
           pastes = [(\<lparr>img_width = 300, img_height = 40\<rparr>, 0, 0),
                     (\<lparr>img_width = 300, img_height = 20\<rparr>, 0, 40)]\<rparr>,
          [(''a'', 0, 0, 300, 40), (''b'', 0, 40, 300, 20)])"
  by (simp add: pack_sprites_def first_pass_def sorted_icons_def place_def starts_new_row_def
      next_row_def init_state_def target_width_def Let_def)

lemma pack_example_zero_width:
  "pack_sprites [(''a'', \<lparr>img_width = 0, img_height = 40\<rparr>, 0, 40),
                 (''b'', \<lparr>img_width = 600, img_height = 20\<rparr>, 600, 20)] [] =
     Inr (\<lparr>sheet_width = 600, sheet_height = 40,
           pastes = [(\<lparr>img_width = 0, img_height = 40\<rparr>, 0, 0),
                     (\<lparr>img_width = 600, img_height = 20\<rparr>, 0, 0)]\<rparr>,
          [(''a'', 0, 0, 0, 40), (''b'', 0, 0, 600, 20)])"
  by (simp add: pack_sprites_def first_pass_def sorted_icons_def place_def starts_new_row_def
      next_row_def init_state_def target_width_def Let_def)

section \<open>The name resolver: termination and strategy\<close>

lemma find_weapon_icon_with_unfold:
  "find_weapon_icon_with mappings aliases weapon_name definitions =
     (case direct_match mappings weapon_name definitions of
        Some d \<Rightarrow> Some (Some d)
      | None \<Rightarrow>
         (case map_of aliases weapon_name of
            Some canonical \<Rightarrow> find_weapon_icon_with mappings aliases canonical definitions
          | None \<Rightarrow> Some None))"
  by (subst find_weapon_icon_with.simps)
     (simp add: direct_match_def Let_def split: option.splits)

lemma partial_match_find:
  "partial_match mapped_name definitions =
     map_option snd (find (\<lambda>(n, d). sublist mapped_name n \<or> sublist n mapped_name) definitions)"
proof (induction definitions)
  case Nil
  then show ?case by simp
next
  case (Cons p definitions)
  obtain n d where p: "p = (n, d)" by (cases p) auto
  show ?case by (simp add: p Cons.IH)
qed

lemma find_no_alias:
  "map_of aliases weapon_name = None \<Longrightarrow>
   find_weapon_icon_with mappings aliases weapon_name definitions =
     Some (direct_match mappings weapon_name definitions)"
  by (subst find_weapon_icon_with_unfold) (simp split: option.splits)

lemma find_returns_chain_free:
  assumes "\<And>a c. map_of aliases a = Some c \<Longrightarrow> map_of aliases c = None"
  shows "find_weapon_icon_with mappings aliases weapon_name definitions =
           Some (case direct_match mappings weapon_name definitions of
                   Some d \<Rightarrow> Some d
                 | None \<Rightarrow>
                   (case map_of aliases weapon_name of
                      Some canonical \<Rightarrow> direct_match mappings canonical definitions
                    | None \<Rightarrow> None))"
proof (cases "map_of aliases weapon_name")
  case None
  then show ?thesis by (simp add: find_no_alias split: option.splits)
next
  case (Some c)
  then have "map_of aliases c = None" by (rule assms)
  then have "find_weapon_icon_with mappings aliases c definitions =
      Some (direct_match mappings c definitions)"
    by (rule find_no_alias)
  with Some show ?thesis
    by (subst find_weapon_icon_with_unfold) (simp split: option.splits)
qed

lemma alias_cycle_no_return:
  assumes closed: "\<And>n. n \<in> S \<Longrightarrow> \<exists>c \<in> S. map_of aliases n = Some c"
    and nomatch: "\<And>n. n \<in> S \<Longrightarrow> direct_match mappings n definitions = None"
    and "weapon_name \<in> S"
  shows "find_weapon_icon_with mappings aliases weapon_name definitions = None"
proof (rule ccontr)
  assume "find_weapon_icon_with mappings aliases weapon_name definitions \<noteq> None"
  then obtain y where y: "find_weapon_icon_with mappings aliases weapon_name definitions = Some y"
    by auto
  have "m = mappings \<and> al = aliases \<and> ds = definitions \<longrightarrow> w \<notin> S"
    if "find_weapon_icon_with m al w ds = Some y" for m al w ds y
    using that
  proof (induction m al w ds y rule: find_weapon_icon_with.raw_induct[rotated, consumes 1])
    case (1 f m al w ds y)
    show ?case
    proof (intro impI notI)
      assume eqs: "m = mappings \<and> al = aliases \<and> ds = definitions" and w: "w \<in> S"
      then have dm: "direct_match m w ds = None" by (simp add: nomatch)
      from closed[OF w] eqs obtain c where c: "c \<in> S" "map_of al w = Some c" by blast
      from dm have "(let mapped_name = mapped_name_of m w
          in case map_of ds mapped_name of
             None \<Rightarrow>
               (case suffix_match mapped_name [''_kill'', ''death''] ds of
                  None \<Rightarrow>
                    (case partial_match mapped_name ds of
                       None \<Rightarrow> (case map_of al w of None \<Rightarrow> Some None | Some canonical \<Rightarrow> f m al canonical ds)
                     | Some d \<Rightarrow> Some (Some d))
                | Some d \<Rightarrow> Some (Some d))
           | Some d \<Rightarrow> Some (Some d)) = f m al c ds"
        by (simp add: direct_match_def Let_def c split: option.splits)
      with 1(2) have "f m al c ds = Some y" by simp
      from 1(1)[OF this] have "m = mappings \<and> al = aliases \<and> ds = definitions \<longrightarrow> c \<notin> S" .
      with c eqs show False by blast
    qed
  qed
  from this[OF y] assms(3) show False by simp
qed

lemma WEAPON_ALIASES_disjoint: "fst ` set WEAPON_ALIASES \<inter> snd ` set WEAPON_ALIASES = {}"
  by (simp add: WEAPON_ALIASES_def)

lemma WEAPON_ALIASES_chain_free:
  assumes "map_of WEAPON_ALIASES a = Some c"
  shows "map_of WEAPON_ALIASES c = None"
proof -
  from assms have "(a, c) \<in> set WEAPON_ALIASES" by (rule map_of_SomeD)
  then have "c \<in> snd ` set WEAPON_ALIASES" by (simp add: rev_image_eqI)
  with WEAPON_ALIASES_disjoint have "c \<notin> fst ` set WEAPON_ALIASES" by blast
  then show ?thesis by (simp add: map_of_eq_None_iff)
qed

lemma WEAPON_MAPPINGS_distinct: "distinct (map fst WEAPON_MAPPINGS)"
  by (simp add: WEAPON_MAPPINGS_def)


lemma find_weapon_icon_returns:
  "find_weapon_icon weapon_name definitions =
     Some (case direct_match WEAPON_MAPPINGS weapon_name definitions of
             Some d \<Rightarrow> Some d
           | None \<Rightarrow>
             (case map_of WEAPON_ALIASES weapon_name of
                Some canonical \<Rightarrow> direct_match WEAPON_MAPPINGS canonical definitions
              | None \<Rightarrow> None))"
  unfolding find_weapon_icon_def
  by (rule find_returns_chain_free) (rule WEAPON_ALIASES_chain_free)

lemma empty_not_mapped: "map_of WEAPON_MAPPINGS [] = None"
  by (simp add: WEAPON_MAPPINGS_def)

lemma world_mapped: "map_of WEAPON_MAPPINGS ''world'' = Some ''skull''"
  by (simp add: WEAPON_MAPPINGS_def)

lemma pickaxe_not_mapped: "map_of WEAPON_MAPPINGS ''pickaxe'' = None"
  by (simp add: WEAPON_MAPPINGS_def)

lemma direct_match_no_definitions: "direct_match mappings weapon_name [] = None"
  by (simp add: direct_match_def)

lemma direct_match_strategy:
  "direct_match mappings weapon_name definitions =
     (let mapped = mapped_name_of mappings weapon_name in
      if mapped \<in> fst ` set definitions then map_of definitions mapped
      else if mapped @ ''_kill'' \<in> fst ` set definitions then map_of definitions (mapped @ ''_kill'')
      else if mapped @ ''death'' \<in> fst ` set definitions then map_of definitions (mapped @ ''death'')
      else map_option snd (find (\<lambda>(n, d). sublist mapped n \<or> sublist n mapped) definitions))"
proof -
  have key: "k \<in> fst ` set definitions \<longleftrightarrow> map_of definitions k \<noteq> None" for k
    by (simp add: map_of_eq_None_iff)
  show ?thesis
    by (auto simp: direct_match_def Let_def key partial_match_find split: option.splits)
qed

text \<open>
  C1, as the code has it. \<open>find_weapon_icon\<close> has no bound on the depth of the alias
  recursion. On the program's own \<open>WEAPON_ALIASES\<close> it returns for every name and every
  \<open>definitions\<close>, because no alias target is itself an alias (at most one redirection).
  On an alias table with a cycle, or any set \<open>S\<close> of names closed under the table, whose
  names find nothing in steps 1 to 3, the call does not return: it does not yield
  \<open>None\<close> (NotFound).
\<close>

theorem find_weapon_icon_no_depth_bound:
  "(\<exists>r. find_weapon_icon weapon_name definitions = Some r) \<and>
   ((\<forall>a \<in> S. \<exists>c \<in> S. map_of aliases a = Some c) \<and>
    (\<forall>a \<in> S. direct_match mappings a definitions = None) \<longrightarrow>
    (\<forall>a \<in> S. find_weapon_icon_with mappings aliases a definitions = None))"
proof (intro conjI impI ballI)
  show "\<exists>r. find_weapon_icon weapon_name definitions = Some r"
    by (simp add: find_weapon_icon_returns)
next
  fix a
  assume h: "(\<forall>a \<in> S. \<exists>c \<in> S. map_of aliases a = Some c) \<and>
      (\<forall>a \<in> S. direct_match mappings a definitions = None)" and a: "a \<in> S"
  show "find_weapon_icon_with mappings aliases a definitions = None"
  proof (rule alias_cycle_no_return[where S = S])
    show "\<exists>c \<in> S. map_of aliases n = Some c" if "n \<in> S" for n using h that by blast
    show "direct_match mappings n definitions = None" if "n \<in> S" for n using h that by blast
    show "a \<in> S" by (rule a)
  qed
qed

theorem find_weapon_icon_no_depth_bound_witness:
  "(\<exists>r. find_weapon_icon ''A'' [] = Some r) \<and>
   find_weapon_icon_with WEAPON_MAPPINGS [(''A'', ''B''), (''B'', ''C''), (''C'', ''A'')] ''B'' [] = None"
proof -
  let ?al = "[(''A'', ''B''), (''B'', ''C''), (''C'', ''A'')]"
  let ?S = "{''A'', ''B'', ''C''}"
  note t = find_weapon_icon_no_depth_bound[of "''A''" "[]" ?S ?al WEAPON_MAPPINGS]
  from t have 1: "\<exists>r. find_weapon_icon ''A'' [] = Some r" by (rule conjunct1)
  from t have imp: "(\<forall>a \<in> ?S. \<exists>c \<in> ?S. map_of ?al a = Some c) \<and>
      (\<forall>a \<in> ?S. direct_match WEAPON_MAPPINGS a [] = None) \<longrightarrow>
      (\<forall>a \<in> ?S. find_weapon_icon_with WEAPON_MAPPINGS ?al a [] = None)"
    by (rule conjunct2)
  have p1: "\<forall>a \<in> ?S. \<exists>c \<in> ?S. map_of ?al a = Some c" by simp
  have p2: "\<forall>a \<in> ?S. direct_match WEAPON_MAPPINGS a [] = None"
    by (simp add: direct_match_no_definitions)
  from imp p1 p2 have "\<forall>a \<in> ?S. find_weapon_icon_with WEAPON_MAPPINGS ?al a [] = None"
    by (rule mp[OF _ conjI])
  then have "find_weapon_icon_with WEAPON_MAPPINGS ?al ''B'' [] = None" by simp
  with 1 show ?thesis by (rule conjI)
qed

text \<open>
  The claim fails on the cycle \<open>A -> B -> A\<close> with no definitions: the call does not
  return \<open>None\<close>.
\<close>

theorem alias_cycle_counterexample:
  "find_weapon_icon_with WEAPON_MAPPINGS [(''A'', ''B''), (''B'', ''A'')] ''A'' [] \<noteq> Some None"
proof -
  have "find_weapon_icon_with WEAPON_MAPPINGS [(''A'', ''B''), (''B'', ''A'')] ''A'' [] = None"
  proof (rule alias_cycle_no_return[where S = "{''A'', ''B''}"])
    show "\<exists>c \<in> {''A'', ''B''}. map_of [(''A'', ''B''), (''B'', ''A'')] n = Some c"
      if "n \<in> {''A'', ''B''}" for n using that by auto
    show "direct_match WEAPON_MAPPINGS n [] = None" for n
      by (rule direct_match_no_definitions)
    show "''A'' \<in> {''A'', ''B''}" by simp
  qed
  then show ?thesis by simp
qed

text \<open>
  C3. \<open>find_weapon_icon\<close> translates the name through \<open>WEAPON_MAPPINGS\<close> (identity when
  absent) and returns the first hit of: the mapped name itself; the mapped name followed
  by \<open>_kill\<close>, then by \<open>death\<close>; the first definition, in iteration order, whose name
  contains the mapped name or is contained in it; the alias of the original name, resolved
  the same way; otherwise \<open>None\<close>. With \<open>definitions = {'skull': ...}\<close> the name
  \<open>world\<close> resolves to the \<open>skull\<close> definition.
\<close>

theorem find_weapon_icon_strategy:
  "find_weapon_icon weapon_name definitions =
     (let mapped = (case map_of WEAPON_MAPPINGS weapon_name of Some m \<Rightarrow> m | None \<Rightarrow> weapon_name) in
      if mapped \<in> fst ` set definitions then Some (map_of definitions mapped)
      else if mapped @ ''_kill'' \<in> fst ` set definitions
        then Some (map_of definitions (mapped @ ''_kill''))
      else if mapped @ ''death'' \<in> fst ` set definitions
        then Some (map_of definitions (mapped @ ''death''))
      else case find (\<lambda>(n, d). sublist mapped n \<or> sublist n mapped) definitions of
             Some (n, d) \<Rightarrow> Some (Some d)
           | None \<Rightarrow>
              (case map_of WEAPON_ALIASES weapon_name of
                 Some canonical \<Rightarrow> find_weapon_icon canonical definitions
               | None \<Rightarrow> Some None))
   \<and> find_weapon_icon ''world''
        [(''skull'', \<lparr>kd_name = ''skull'', kd_sprite = ''d_images'',
                      kd_x = 0, kd_y = 0, kd_width = 32, kd_height = 32\<rparr>)] =
       Some (Some \<lparr>kd_name = ''skull'', kd_sprite = ''d_images'',
                   kd_x = 0, kd_y = 0, kd_width = 32, kd_height = 32\<rparr>)"
proof
  have key: "k \<in> fst ` set definitions \<longleftrightarrow> map_of definitions k \<noteq> None" for k
    by (simp add: map_of_eq_None_iff)
  show "find_weapon_icon weapon_name definitions =
     (let mapped = (case map_of WEAPON_MAPPINGS weapon_name of Some m \<Rightarrow> m | None \<Rightarrow> weapon_name) in
      if mapped \<in> fst ` set definitions then Some (map_of definitions mapped)
      else if mapped @ ''_kill'' \<in> fst ` set definitions
        then Some (map_of definitions (mapped @ ''_kill''))
      else if mapped @ ''death'' \<in> fst ` set definitions
        then Some (map_of definitions (mapped @ ''death''))
      else case find (\<lambda>(n, d). sublist mapped n \<or> sublist n mapped) definitions of
             Some (n, d) \<Rightarrow> Some (Some d)
           | None \<Rightarrow>
              (case map_of WEAPON_ALIASES weapon_name of
                 Some canonical \<Rightarrow> find_weapon_icon canonical definitions
               | None \<Rightarrow> Some None))"
  proof -
    define mapped where "mapped = mapped_name_of WEAPON_MAPPINGS weapon_name"
    define tail where "tail =
      (case map_of WEAPON_ALIASES weapon_name of
         Some canonical \<Rightarrow> find_weapon_icon canonical definitions
       | None \<Rightarrow> Some None)"
    have m: "(case map_of WEAPON_MAPPINGS weapon_name of Some m \<Rightarrow> m | None \<Rightarrow> weapon_name) = mapped"
      by (simp add: mapped_def mapped_name_of_def split: option.splits)
    have unf: "find_weapon_icon weapon_name definitions =
        (case direct_match WEAPON_MAPPINGS weapon_name definitions of
           Some d \<Rightarrow> Some (Some d) | None \<Rightarrow> tail)"
      unfolding find_weapon_icon_def tail_def
      by (subst find_weapon_icon_with_unfold) simp
    have dm: "direct_match WEAPON_MAPPINGS weapon_name definitions =
        (if mapped \<in> fst ` set definitions then map_of definitions mapped
         else if mapped @ ''_kill'' \<in> fst ` set definitions then map_of definitions (mapped @ ''_kill'')
         else if mapped @ ''death'' \<in> fst ` set definitions then map_of definitions (mapped @ ''death'')
         else map_option snd (find (\<lambda>(n, d). sublist mapped n \<or> sublist n mapped) definitions))"
      by (simp add: direct_match_strategy mapped_def Let_def)
    have hit: "(case map_of definitions k of Some d \<Rightarrow> Some (Some d) | None \<Rightarrow> tail) =
        Some (map_of definitions k)" if "k \<in> fst ` set definitions" for k
      using that by (auto simp: key)
    have fnd: "(case map_option snd (find P definitions) of Some d \<Rightarrow> Some (Some d) | None \<Rightarrow> tail) =
        (case find P definitions of Some (n, d) \<Rightarrow> Some (Some d) | None \<Rightarrow> tail)" for P
      by (cases "find P definitions") auto
    show ?thesis
      unfolding m Let_def unf dm tail_def[symmetric]
    proof (cases "find (\<lambda>(n, d). sublist mapped n \<or> sublist n mapped) definitions")
      case None
      then show "(case if mapped \<in> fst ` set definitions then map_of definitions mapped
           else if mapped @ ''_kill'' \<in> fst ` set definitions then map_of definitions (mapped @ ''_kill'')
           else if mapped @ ''death'' \<in> fst ` set definitions then map_of definitions (mapped @ ''death'')
           else map_option snd (find (\<lambda>(n, d). sublist mapped n \<or> sublist n mapped) definitions) of
         None \<Rightarrow> tail | Some d \<Rightarrow> Some (Some d)) =
        (if mapped \<in> fst ` set definitions then Some (map_of definitions mapped)
         else if mapped @ ''_kill'' \<in> fst ` set definitions then Some (map_of definitions (mapped @ ''_kill''))
         else if mapped @ ''death'' \<in> fst ` set definitions then Some (map_of definitions (mapped @ ''death''))
         else case find (\<lambda>(n, d). sublist mapped n \<or> sublist n mapped) definitions of
                None \<Rightarrow> tail | Some (n, d) \<Rightarrow> Some (Some d))"
        by (simp add: hit)
    next
      case (Some p)
      obtain n d where p: "p = (n, d)" by (cases p) auto
      from Some show "(case if mapped \<in> fst ` set definitions then map_of definitions mapped
           else if mapped @ ''_kill'' \<in> fst ` set definitions then map_of definitions (mapped @ ''_kill'')
           else if mapped @ ''death'' \<in> fst ` set definitions then map_of definitions (mapped @ ''death'')
           else map_option snd (find (\<lambda>(n, d). sublist mapped n \<or> sublist n mapped) definitions) of
         None \<Rightarrow> tail | Some d \<Rightarrow> Some (Some d)) =
        (if mapped \<in> fst ` set definitions then Some (map_of definitions mapped)
         else if mapped @ ''_kill'' \<in> fst ` set definitions then Some (map_of definitions (mapped @ ''_kill''))
         else if mapped @ ''death'' \<in> fst ` set definitions then Some (map_of definitions (mapped @ ''death''))
         else case find (\<lambda>(n, d). sublist mapped n \<or> sublist n mapped) definitions of
                None \<Rightarrow> tail | Some (n, d) \<Rightarrow> Some (Some d))"
        by (simp add: hit p)
    qed
  qed
next
  show "find_weapon_icon ''world''
        [(''skull'', \<lparr>kd_name = ''skull'', kd_sprite = ''d_images'',
                      kd_x = 0, kd_y = 0, kd_width = 32, kd_height = 32\<rparr>)] =
       Some (Some \<lparr>kd_name = ''skull'', kd_sprite = ''d_images'',
                   kd_x = 0, kd_y = 0, kd_width = 32, kd_height = 32\<rparr>)"
    by (simp add: find_weapon_icon_returns direct_match_def mapped_name_of_def world_mapped)
qed

theorem find_weapon_icon_strategy_witness:
  "find_weapon_icon ''pickaxe''
     [(''club'', \<lparr>kd_name = ''club'', kd_sprite = ''d_images'',
                  kd_x = 0, kd_y = 32, kd_width = 32, kd_height = 32\<rparr>),
      (''unique_pickaxe'', \<lparr>kd_name = ''unique_pickaxe'', kd_sprite = ''d_images'',
                            kd_x = 0, kd_y = 0, kd_width = 16, kd_height = 16\<rparr>)] =
   Some (Some \<lparr>kd_name = ''unique_pickaxe'', kd_sprite = ''d_images'',
               kd_x = 0, kd_y = 0, kd_width = 16, kd_height = 16\<rparr>)"
  using find_weapon_icon_strategy[of "''pickaxe''"
     "[(''club'', \<lparr>kd_name = ''club'', kd_sprite = ''d_images'',
                  kd_x = 0, kd_y = 32, kd_width = 32, kd_height = 32\<rparr>),
      (''unique_pickaxe'', \<lparr>kd_name = ''unique_pickaxe'', kd_sprite = ''d_images'',
                            kd_x = 0, kd_y = 0, kd_width = 16, kd_height = 16\<rparr>)]"]
  by (simp add: pickaxe_not_mapped sublist_Cons_right)

text \<open>
  C10. On a non-empty \<open>definitions\<close> with none of the keys \<open>''\<close>, \<open>_kill\<close> and
  \<open>death\<close>, the empty name resolves to the first definition in iteration order.
\<close>

theorem find_weapon_icon_empty_name:
  assumes "definitions \<noteq> []"
    and "[] \<notin> fst ` set definitions"
    and "''_kill'' \<notin> fst ` set definitions"
    and "''death'' \<notin> fst ` set definitions"
  shows "find_weapon_icon [] definitions = Some (Some (snd (hd definitions)))"
proof -
  obtain n d rest where ds: "definitions = (n, d) # rest"
    using assms(1) by (cases definitions) auto
  have "direct_match WEAPON_MAPPINGS [] definitions = Some d"
    using assms(2-4)
    by (simp add: direct_match_strategy mapped_name_of_def empty_not_mapped ds)
  then show ?thesis
    by (simp add: find_weapon_icon_returns ds)
qed

theorem find_weapon_icon_empty_name_witness:
  "find_weapon_icon []
     [(''skull'', \<lparr>kd_name = ''skull'', kd_sprite = ''d_images'',
                   kd_x = 0, kd_y = 0, kd_width = 32, kd_height = 32\<rparr>),
      (''club'', \<lparr>kd_name = ''club'', kd_sprite = ''d_images'',
                  kd_x = 0, kd_y = 32, kd_width = 32, kd_height = 32\<rparr>)] =
   Some (Some \<lparr>kd_name = ''skull'', kd_sprite = ''d_images'',
               kd_x = 0, kd_y = 0, kd_width = 32, kd_height = 32\<rparr>)"
  using find_weapon_icon_empty_name[of
     "[(''skull'', \<lparr>kd_name = ''skull'', kd_sprite = ''d_images'',
                   kd_x = 0, kd_y = 0, kd_width = 32, kd_height = 32\<rparr>),
      (''club'', \<lparr>kd_name = ''club'', kd_sprite = ''d_images'',
                  kd_x = 0, kd_y = 32, kd_width = 32, kd_height = 32\<rparr>)]"]
  by simp

section \<open>The sprite packer: claims\<close>

lemma first_pass_entry:
  assumes "(n, r) \<in> set (positions (first_pass icons))"
  shows "map_of (positions (first_pass icons)) n = Some r"
  using assms distinct_first_pass by (simp add: map_of_is_SomeI)

lemma add_aliases_set_entry:
  assumes "distinct (map fst pos)" and "(n, r) \<in> set (add_aliases al pos)"
  shows "map_of (add_aliases al pos) n = Some r"
  using assms distinct_add_aliases by (simp add: map_of_is_SomeI)

text \<open>
  C2. For every input of \<open>pack_sprites\<close> (empty or not) the call returns, every rect of
  the returned positions lies inside the sheet, \<open>x + w \<le> width\<close> and
  \<open>y + h \<le> height\<close>, so the sheet is at least as large as the bounding box of the rects,
  and the rects of two distinct names that are not alias names do not intersect.
\<close>

theorem pack_sprites_within_sheet_and_disjoint:
  "\<exists>sprite pos. pack_sprites icons aliases = Inr (sprite, pos) \<and>
     (\<forall>(n, x, y, w, h) \<in> set pos. x + w \<le> sheet_width sprite \<and> y + h \<le> sheet_height sprite) \<and>
     (\<forall>(n1, r1) \<in> set pos. \<forall>(n2, r2) \<in> set pos.
         n1 \<noteq> n2 \<and> n1 \<notin> fst ` set aliases \<and> n2 \<notin> fst ` set aliases \<longrightarrow> \<not> intersects r1 r2)"
proof (cases "icons = []")
  case True
  then show ?thesis by (simp add: pack_sprites_result)
next
  case False
  define P where "P = positions (first_pass icons)"
  define pos where "pos = add_aliases aliases P"
  define sprite where "sprite =
    \<lparr>sheet_width = max_width (first_pass icons),
     sheet_height = current_y (first_pass icons) + row_height (first_pass icons),
     pastes = map (\<lambda>(n, x, y, w, h). (fst (the (map_of icons n)), x, y)) P\<rparr>"
  have res: "pack_sprites icons aliases = Inr (sprite, pos)"
    using False by (simp add: pack_sprites_result sprite_def pos_def P_def)
  have dP: "distinct (map fst P)" by (simp add: P_def distinct_first_pass)
  have look: "map_of pos n = Some r" if "(n, r) \<in> set pos" for n r
    using that dP unfolding pos_def by (rule add_aliases_set_entry[rotated])
  have bounds: "x + w \<le> sheet_width sprite \<and> y + h \<le> sheet_height sprite"
    if "(n, x, y, w, h) \<in> set pos" for n x y w h
  proof -
    from look[OF that] obtain m where "map_of P m = Some (x, y, w, h)"
      unfolding pos_def using add_aliases_ran by blast
    then show ?thesis
      using first_pass_bounds[of icons m x y w h] by (simp add: P_def sprite_def)
  qed
  have disj: "\<not> intersects r1 r2"
    if "(n1, r1) \<in> set pos" "(n2, r2) \<in> set pos"
       "n1 \<noteq> n2 \<and> n1 \<notin> fst ` set aliases \<and> n2 \<notin> fst ` set aliases" for n1 r1 n2 r2
  proof -
    have "map_of P n1 = Some r1"
      using look[OF that(1)] that(3) by (simp add: pos_def add_aliases_other)
    moreover have "map_of P n2 = Some r2"
      using look[OF that(2)] that(3) by (simp add: pos_def add_aliases_other)
    ultimately show ?thesis
      using pack_inv_first_pass[of icons] that(3) unfolding pack_inv_def P_def by blast
  qed
  show ?thesis
  proof (intro exI conjI)
    show "pack_sprites icons aliases = Inr (sprite, pos)" by (rule res)
    show "\<forall>(n, x, y, w, h) \<in> set pos. x + w \<le> sheet_width sprite \<and> y + h \<le> sheet_height sprite"
      using bounds by blast
    show "\<forall>(n1, r1) \<in> set pos. \<forall>(n2, r2) \<in> set pos.
         n1 \<noteq> n2 \<and> n1 \<notin> fst ` set aliases \<and> n2 \<notin> fst ` set aliases \<longrightarrow> \<not> intersects r1 r2"
      using disj by blast
  qed
qed


theorem pack_sprites_within_sheet_and_disjoint_witness:
  "pack_sprites [(''a'', \<lparr>img_width = 300, img_height = 40\<rparr>, 300, 40),
                 (''b'', \<lparr>img_width = 300, img_height = 20\<rparr>, 300, 20)] [] =
     Inr (\<lparr>sheet_width = 300, sheet_height = 60,
           pastes = [(\<lparr>img_width = 300, img_height = 40\<rparr>, 0, 0),
                     (\<lparr>img_width = 300, img_height = 20\<rparr>, 0, 40)]\<rparr>,
          [(''a'', 0, 0, 300, 40), (''b'', 0, 40, 300, 20)]) \<and>
   \<not> intersects (0, 0, 300, 40) (0, 40, 300, 20)"
  using pack_sprites_within_sheet_and_disjoint[of
     "[(''a'', \<lparr>img_width = 300, img_height = 40\<rparr>, 300, 40),
       (''b'', \<lparr>img_width = 300, img_height = 20\<rparr>, 300, 20)]" "[]"]
  by (simp add: pack_example)





text \<open>
  C7, as the code has it. The first pass takes the icons in height-descending order (a
  stable sort of the input) from the cursors \<open>(0, 0)\<close> and places each at the cursor.
  It starts a new row (x reset to 0, y advanced by the row height) exactly when
  \<open>current_x + width > 512\<close> and \<open>current_x > 0\<close>. When all icons placed so far have
  a positive width, that is exactly when the icon would exceed 512 and the current row is
  not empty. Heights 40 and 20 with widths 300 and 300 give \<open>(0, 0)\<close>, \<open>(0, 40)\<close> and a
  sheet of 300 by 60.
\<close>

theorem first_pass_rows:
  "mset (sorted_icons icons) = mset icons \<and>
   sorted (rev (map (\<lambda>e. img_height (fst (snd e))) (sorted_icons icons))) \<and>
   first_pass icons = foldl place init_state (sorted_icons icons) \<and>
   current_x init_state = 0 \<and> current_y init_state = 0 \<and> row_height init_state = 0 \<and>
   (starts_new_row s img \<longleftrightarrow> 512 < current_x s + img_width img \<and> 0 < current_x s) \<and>
   map_of (positions (place s e)) (fst e) =
     Some (if starts_new_row s (fst (snd e)) then 0 else current_x s,
           if starts_new_row s (fst (snd e)) then current_y s + row_height s else current_y s,
           img_width (fst (snd e)), img_height (fst (snd e))) \<and>
   current_x (place s e) =
     (if starts_new_row s (fst (snd e)) then 0 else current_x s) + img_width (fst (snd e)) \<and>
   current_y (place s e) =
     (if starts_new_row s (fst (snd e)) then current_y s + row_height s else current_y s) \<and>
   row_height (place s e) =
     max (if starts_new_row s (fst (snd e)) then 0 else row_height s) (img_height (fst (snd e))) \<and>
   fst (foldl place_row (init_state, []) pre) = foldl place init_state pre \<and>
   ((\<forall>p \<in> set pre. 0 < img_width (fst (snd p))) \<longrightarrow>
      (starts_new_row (foldl place init_state pre) img \<longleftrightarrow>
         512 < current_x (foldl place init_state pre) + img_width img \<and>
         snd (foldl place_row (init_state, []) pre) \<noteq> [])) \<and>
   pack_sprites [(''a'', \<lparr>img_width = 300, img_height = 40\<rparr>, 300, 40),
                 (''b'', \<lparr>img_width = 300, img_height = 20\<rparr>, 300, 20)] [] =
     Inr (\<lparr>sheet_width = 300, sheet_height = 60,
           pastes = [(\<lparr>img_width = 300, img_height = 40\<rparr>, 0, 0),
                     (\<lparr>img_width = 300, img_height = 20\<rparr>, 0, 40)]\<rparr>,
          [(''a'', 0, 0, 300, 40), (''b'', 0, 40, 300, 20)])"
proof -
  have rows: "starts_new_row (foldl place init_state pre) img \<longleftrightarrow>
         512 < current_x (foldl place init_state pre) + img_width img \<and>
         snd (foldl place_row (init_state, []) pre) \<noteq> []"
    if "\<forall>p \<in> set pre. 0 < img_width (fst (snd p))"
    using current_x_positive[OF that] current_row_empty_iff[of init_state pre]
    by (simp add: starts_new_row_def target_width_def)
  have test: "starts_new_row s img \<longleftrightarrow> 512 < current_x s + img_width img \<and> 0 < current_x s"
    by (simp add: starts_new_row_def target_width_def)
  have ghost: "fst (foldl place_row (init_state, []) pre) = foldl place init_state pre"
    by (simp add: fst_foldl_place_row)
  have init: "current_x init_state = 0 \<and> current_y init_state = 0 \<and> row_height init_state = 0"
    by (simp add: init_state_def)
  show ?thesis
    using rows test ghost init sorted_icons_mset[of icons] sorted_icons_descending[of icons]
      first_pass_def[of icons] position_place[of s e] current_x_place[of s e]
      current_y_place[of s e] row_height_place[of s e] pack_example
    by (intro conjI impI) blast+
qed

theorem first_pass_rows_witness:
  "starts_new_row (foldl place init_state [(''a'', \<lparr>img_width = 300, img_height = 40\<rparr>, 300, 40)])
     \<lparr>img_width = 300, img_height = 20\<rparr> \<and>
   \<not> starts_new_row (foldl place init_state [(''a'', \<lparr>img_width = 300, img_height = 40\<rparr>, 300, 40)])
     \<lparr>img_width = 200, img_height = 20\<rparr>"
proof -
  let ?pre = "[(''a'', \<lparr>img_width = 300, img_height = 40\<rparr>, 300, 40)]"
  have pos: "\<forall>p \<in> set ?pre. 0 < img_width (fst (snd p))" by simp
  have cx: "current_x (foldl place init_state ?pre) = 300"
    by (simp add: place_def starts_new_row_def init_state_def Let_def)
  have row: "snd (foldl place_row (init_state, []) ?pre) \<noteq> []"
    by (simp add: place_row_def)
  have 1: "starts_new_row (foldl place init_state ?pre) \<lparr>img_width = 300, img_height = 20\<rparr>"
    using first_pass_rows[of "[]" init_state "\<lparr>img_width = 300, img_height = 20\<rparr>" "(''a'', \<lparr>img_width = 300, img_height = 40\<rparr>, 300, 40)" ?pre]
      pos cx row by simp
  have 2: "\<not> starts_new_row (foldl place init_state ?pre) \<lparr>img_width = 200, img_height = 20\<rparr>"
    using first_pass_rows[of "[]" init_state "\<lparr>img_width = 200, img_height = 20\<rparr>" "(''a'', \<lparr>img_width = 300, img_height = 40\<rparr>, 300, 40)" ?pre]
      pos cx row by simp
  from 1 2 show ?thesis by (rule conjI)
qed

text \<open>
  The claim fails after an icon of width 0: the row holds that icon, an icon of width 600
  exceeds 512, and no new row is started; both are placed at \<open>(0, 0)\<close>.
\<close>

theorem zero_width_row_counterexample:
  "snd (foldl place_row (init_state, []) [(''a'', \<lparr>img_width = 0, img_height = 40\<rparr>, 0, 40)]) \<noteq> [] \<and>
   target_width < current_x (foldl place init_state [(''a'', \<lparr>img_width = 0, img_height = 40\<rparr>, 0, 40)]) + 600 \<and>
   \<not> starts_new_row (foldl place init_state [(''a'', \<lparr>img_width = 0, img_height = 40\<rparr>, 0, 40)])
        \<lparr>img_width = 600, img_height = 20\<rparr> \<and>
   pack_sprites [(''a'', \<lparr>img_width = 0, img_height = 40\<rparr>, 0, 40),
                 (''b'', \<lparr>img_width = 600, img_height = 20\<rparr>, 600, 20)] [] =
     Inr (\<lparr>sheet_width = 600, sheet_height = 40,
           pastes = [(\<lparr>img_width = 0, img_height = 40\<rparr>, 0, 0),
                     (\<lparr>img_width = 600, img_height = 20\<rparr>, 0, 0)]\<rparr>,
          [(''a'', 0, 0, 0, 40), (''b'', 0, 0, 600, 20)])"
  by (simp add: pack_example_zero_width place_row_def place_def starts_new_row_def
      next_row_def init_state_def target_width_def Let_def)

section \<open>The lookup table emitter: rules\<close>

lemma collect_reverse_map:
  assumes "distinct (map fst T)"
  shows "map_of (fst (collect_reverse T pos (rm, aw))) n =
           (case map_of T n of
              None \<Rightarrow> map_of rm n
            | Some m \<Rightarrow> if m \<in> set (map fst pos) then Some m else map_of rm n)"
  using assms
proof (induction T arbitrary: rm aw)
  case Nil
  then show ?case by simp
next
  case (Cons p T)
  obtain orig m where p: "p = (orig, m)" by (cases p) auto
  from Cons.prems have d: "distinct (map fst T)" and notin: "orig \<notin> fst ` set T"
    by (auto simp: p)
  from notin have none: "map_of T orig = None" by (simp add: map_of_eq_None_iff)
  show ?case
  proof (cases "m \<in> set (map fst pos)")
    case True
    then have step: "collect_reverse (p # T) pos (rm, aw) =
        collect_reverse T pos (AList.update orig m rm, List.insert orig aw)"
      by (simp add: p)
    show ?thesis
      unfolding step Cons.IH[OF d]
      using True none by (cases "n = orig") (simp_all add: p update_conv' split: option.splits)
  next
    case False
    then have step: "collect_reverse (p # T) pos (rm, aw) = collect_reverse T pos (rm, aw)"
      by (simp add: p)
    show ?thesis
      unfolding step Cons.IH[OF d]
      using False none by (cases "n = orig") (simp_all add: p split: option.splits)
  qed
qed

lemma collect_reverse_names:
  "set (snd (collect_reverse T pos (rm, aw))) =
     set aw \<union> {orig. \<exists>m. (orig, m) \<in> set T \<and> m \<in> set (map fst pos)}"
proof (induction T arbitrary: rm aw)
  case Nil
  then show ?case by simp
next
  case (Cons p T)
  obtain orig m where p: "p = (orig, m)" by (cases p) auto
  show ?case
  proof (cases "m \<in> set (map fst pos)")
    case True
    then have step: "collect_reverse (p # T) pos (rm, aw) =
        collect_reverse T pos (AList.update orig m rm, List.insert orig aw)"
      by (simp add: p)
    show ?thesis unfolding step Cons.IH using True by (auto simp: p)
  next
    case False
    then have step: "collect_reverse (p # T) pos (rm, aw) = collect_reverse T pos (rm, aw)"
      by (simp add: p)
    show ?thesis unfolding step Cons.IH using False by (auto simp: p)
  qed
qed

lemma collect_reverse_distinct:
  "distinct aw \<Longrightarrow> distinct (snd (collect_reverse T pos (rm, aw)))"
proof (induction T arbitrary: rm aw)
  case Nil
  then show ?case by simp
next
  case (Cons p T)
  obtain orig m where p: "p = (orig, m)" by (cases p) auto
  from Cons.prems have "distinct (List.insert orig aw)" by simp
  with Cons.prems Cons.IH show ?case by (simp add: p)
qed

lemma emit_rules_result:
  assumes "\<And>n m. map_of rm n = Some m \<Longrightarrow> map_of pos m \<noteq> None"
  shows "emit_rules names rm pos css_lines =
           Inr (css_lines @ concat (map (\<lambda>(n, r). css_rule n r)
                  (List.map_filter (\<lambda>n. map_option (Pair n) (rect_via rm pos n)) names)))"
proof (induction names arbitrary: css_lines)
  case Nil
  then show ?case by (simp add: map_filter_simps)
next
  case (Cons n names)
  show ?case
  proof (cases "map_of rm n")
    case None
    then show ?thesis
      by (cases "map_of pos n") (simp_all add: Cons.IH rect_via_def map_filter_simps)
  next
    case (Some m)
    with assms obtain r where r: "map_of pos m = Some r" by fastforce
    with Some show ?thesis
      by (simp add: Cons.IH rect_via_def map_filter_simps)
  qed
qed

lemma map_of_in_keys: "map_of pos m \<noteq> None \<longleftrightarrow> m \<in> set (map fst pos)"
  by (simp add: map_of_eq_None_iff)

lemma generate_css_render: "generate_css pos = Inr (join_lines (render_lines (css_rules pos)))"
proof -
  define res where "res = collect_reverse WEAPON_MAPPINGS pos ([], remdups (map fst pos))"
  define rm where "rm = fst res"
  define aw where "aw = snd res"
  have rm: "map_of rm n =
      (case map_of WEAPON_MAPPINGS n of
         None \<Rightarrow> None
       | Some m \<Rightarrow> if m \<in> set (map fst pos) then Some m else None)" for n
    unfolding rm_def res_def
    by (simp add: collect_reverse_map[OF WEAPON_MAPPINGS_distinct] split: option.splits)
  have ok: "map_of pos m \<noteq> None" if "map_of rm n = Some m" for n m
  proof -
    from that have "m \<in> set (map fst pos)"
      unfolding rm by (simp split: option.splits if_splits)
    then show ?thesis by (simp only: map_of_in_keys)
  qed
  have via: "rect_via rm pos n = emitted_rect pos n" for n
  proof (cases "map_of WEAPON_MAPPINGS n")
    case None
    then show ?thesis by (simp add: rect_via_def emitted_rect_def rm)
  next
    case (Some m)
    show ?thesis
    proof (cases "map_of pos m")
      case None
      then have "m \<notin> set (map fst pos)" by (simp only: map_of_in_keys[symmetric]) simp
      with Some None show ?thesis by (simp add: rect_via_def emitted_rect_def rm)
    next
      case (Some r)
      then have "m \<in> set (map fst pos)" by (simp only: map_of_in_keys[symmetric]) simp
      with \<open>map_of WEAPON_MAPPINGS n = Some m\<close> Some show ?thesis
        by (simp add: rect_via_def emitted_rect_def rm)
    qed
  qed
  have "set aw = set (map fst pos) \<union>
      {orig. \<exists>m. (orig, m) \<in> set WEAPON_MAPPINGS \<and> m \<in> set (map fst pos)}"
    unfolding aw_def res_def by (simp add: collect_reverse_names)
  also have "\<dots> = exported_names pos"
    unfolding exported_names_def
    using WEAPON_MAPPINGS_distinct by (auto simp: map_of_eq_Some_iff)
  finally have set_aw: "set aw = exported_names pos" .
  have "distinct aw"
    unfolding aw_def res_def by (rule collect_reverse_distinct) simp
  then have sorted_aw: "sort aw = sorted_list_of_set (exported_names pos)"
    by (simp add: set_aw[symmetric] sorted_list_of_set_sort_remdups distinct_remdups_id)
  have "generate_css pos =
      (case emit_rules (sort aw) rm pos css_header of
         Inl e \<Rightarrow> Inl e | Inr css_lines \<Rightarrow> Inr (join_lines css_lines))"
    by (simp add: generate_css_def Let_def rm_def aw_def res_def split: prod.splits)
  also have "\<dots> = Inr (join_lines (render_lines (css_rules pos)))"
    using ok by (simp add: emit_rules_result sorted_aw via css_rules_def render_lines_def)
  finally show ?thesis .
qed

lemma finite_exported_names: "finite (exported_names pos)"
proof -
  have "exported_names pos \<subseteq> fst ` set pos \<union> fst ` set WEAPON_MAPPINGS"
    unfolding exported_names_def
    by (auto dest!: map_of_SomeD intro: rev_image_eqI)
  then show ?thesis by (rule finite_subset) simp
qed

lemma map_fst_map_filter:
  "map fst (List.map_filter (\<lambda>n. map_option (Pair n) (f n)) xs) = filter (\<lambda>n. f n \<noteq> None) xs"
  by (induction xs) (auto simp: map_filter_simps split: option.splits)

lemma map_of_map_filter:
  "map_of (List.map_filter (\<lambda>n. map_option (Pair n) (f n)) xs) n =
     (if n \<in> set xs then f n else None)"
  by (induction xs) (auto simp: map_filter_simps split: option.splits)

lemma emitted_rect_exported:
  assumes "n \<in> exported_names pos"
  shows "emitted_rect pos n \<noteq> None"
proof (cases "map_of WEAPON_MAPPINGS n")
  case None
  with assms have "n \<in> fst ` set pos" by (simp add: exported_names_def)
  then have "map_of pos n \<noteq> None" by (simp add: map_of_eq_None_iff)
  with None show ?thesis by (simp add: emitted_rect_def)
next
  case (Some m)
  show ?thesis
  proof (cases "map_of pos m")
    case None
    then have "m \<notin> fst ` set pos" by (simp add: map_of_eq_None_iff)
    with assms Some have "n \<in> fst ` set pos" by (simp add: exported_names_def)
    then have "map_of pos n \<noteq> None" by (simp add: map_of_eq_None_iff)
    with Some None show ?thesis by (simp add: emitted_rect_def)
  next
    case (Some r)
    with \<open>map_of WEAPON_MAPPINGS n = Some m\<close> show ?thesis by (simp add: emitted_rect_def)
  qed
qed

lemma css_rules_names: "map fst (css_rules pos) = sorted_list_of_set (exported_names pos)"
proof -
  have "filter (\<lambda>n. emitted_rect pos n \<noteq> None) (sorted_list_of_set (exported_names pos)) =
      sorted_list_of_set (exported_names pos)"
    by (rule filter_True) (simp add: finite_exported_names emitted_rect_exported)
  then show ?thesis by (simp add: css_rules_def map_fst_map_filter)
qed

lemma css_rules_lookup:
  "map_of (css_rules pos) n = (if n \<in> exported_names pos then emitted_rect pos n else None)"
  by (simp add: css_rules_def map_of_map_filter finite_exported_names)

lemma digit_of_nth: "d < 10 \<Longrightarrow> digit_of (''0123456789'' ! d) = Some d"
proof -
  assume "d < 10"
  then have "d \<in> {0, 1, 2, 3, 4, 5, 6, 7, 8, 9}" by auto
  then show ?thesis by (auto simp: digit_of_def)
qed

lemma str_nat_not_empty: "str_nat n \<noteq> []"
  by (subst str_nat.simps) simp

lemma read_digits_str_nat: "foldl read_digit (Some 0) (str_nat n) = Some n"
proof (induction n rule: str_nat.induct)
  case (1 n)
  show ?case
  proof (cases "n < 10")
    case True
    then show ?thesis
      by (subst str_nat.simps) (simp add: read_digit_def digit_of_nth)
  next
    case False
    then have "foldl read_digit (Some 0) (str_nat (n div 10)) = Some (n div 10)" by (rule "1.IH")
    with False show ?thesis
      by (subst str_nat.simps) (simp add: read_digit_def digit_of_nth)
  qed
qed

lemma read_decimal_str_nat: "read_decimal (str_nat n) = Some n"
  by (simp add: read_decimal_def str_nat_not_empty read_digits_str_nat)

lemma read_offset_minus: "read_offset (''-'' @ str_nat n) = Some (- int n)"
  by (simp add: read_offset_def read_decimal_str_nat)

lemma join_lines_text: "join_lines ls = text_of_lines ls"
proof (induction ls rule: join_lines.induct)
  case 1
  then show ?case by (simp add: text_of_lines_def)
next
  case (2 l)
  then show ?case by (simp add: text_of_lines_def)
next
  case (3 l l' ls)
  have ne: "concat (map (\<lambda>l. l @ [CHR 0x0A]) (l' # ls)) \<noteq> []" by simp
  have "text_of_lines (l # l' # ls) =
      (l @ [CHR 0x0A]) @ butlast (concat (map (\<lambda>l. l @ [CHR 0x0A]) (l' # ls)))"
    unfolding text_of_lines_def using ne by (simp add: butlast_append)
  with 3 show ?case by (simp add: text_of_lines_def)
qed

lemma css_rule_text: "css_rule n r = rule_text (n, r)"
  by (simp add: css_rule_def rule_text_def)

lemma css_header_text: "css_header = sheet_header"
  by (simp add: css_header_def sheet_header_def)

lemma generate_css_text:
  "generate_css pos = Inr (text_of_lines (sheet_header @ concat (map rule_text (css_rules pos))))"
proof -
  have "(\<lambda>(n, r). css_rule n r) = rule_text"
    by (rule ext) (simp add: css_rule_text split: prod.splits)
  then show ?thesis
    by (simp add: generate_css_render render_lines_def join_lines_text css_header_text)
qed

lemma exported_names_list:
  "exported_names pos =
     set (map fst pos @ map fst (filter (\<lambda>(n, m). m \<in> set (map fst pos)) WEAPON_MAPPINGS))"
proof -
  have "{n. \<exists>m. map_of WEAPON_MAPPINGS n = Some m \<and> m \<in> fst ` set pos} =
      fst ` {p \<in> set WEAPON_MAPPINGS. snd p \<in> fst ` set pos}"
    using WEAPON_MAPPINGS_distinct by (force simp: map_of_eq_Some_iff)
  then show ?thesis
    by (auto simp: exported_names_def case_prod_beta)
qed

lemma css_rules_list:
  "css_rules pos =
     List.map_filter (\<lambda>n. map_option (Pair n) (emitted_rect pos n))
       (sort (remdups
          (map fst pos @ map fst (filter (\<lambda>(n, m). m \<in> set (map fst pos)) WEAPON_MAPPINGS))))"
  by (simp only: css_rules_def exported_names_list sorted_list_of_set_sort_remdups)

lemma css_rules_split:
  assumes "map_of (css_rules pos) n = Some r"
  shows "\<exists>before after. css_rules pos = before @ (n, r) # after \<and>
           n \<notin> fst ` set before \<and> n \<notin> fst ` set after"
proof -
  from assms have "(n, r) \<in> set (css_rules pos)" by (rule map_of_SomeD)
  then obtain before after where sp: "css_rules pos = before @ (n, r) # after"
    by (auto dest: split_list)
  have "distinct (map fst (css_rules pos))" by (simp add: css_rules_names)
  then have "n \<notin> fst ` set before \<and> n \<notin> fst ` set after"
    unfolding sp by auto
  with sp show ?thesis by blast
qed

lemma rocketlauncher_mapped: "map_of WEAPON_MAPPINGS ''rocketlauncher'' = Some ''tf_projectile_rocket''"
  by (simp add: WEAPON_MAPPINGS_def)

text \<open>
  C6. The text \<open>generate_css\<close> writes is the header followed by the six lines of one rule
  for each entry of \<open>css_rules\<close>. The rule names are the names of
  \<open>positions.keys() \<union> {n : WEAPON_MAPPINGS[n] in positions}\<close>, each once, in ascending
  order. A name that is not a key of \<open>positions\<close> has the rect of its mapped target, and
  every rule has a rect of \<open>positions\<close>, the name's own or its target's. The numerals of a
  rule are strings of digits that denote the width and the height, and with the minus
  sign before them the offsets denote \<open>-x\<close> and \<open>-y\<close>.
\<close>

theorem generate_css_rules:
  "generate_css pos =
     Inr (text_of_lines (sheet_header @ concat (map rule_text (css_rules pos)))) \<and>
   map fst (css_rules pos) =
     sorted_list_of_set
       (fst ` set pos \<union> {n. \<exists>m. map_of WEAPON_MAPPINGS n = Some m \<and> m \<in> fst ` set pos}) \<and>
   sorted (map fst (css_rules pos)) \<and> distinct (map fst (css_rules pos)) \<and>
   (\<forall>n m. n \<notin> fst ` set pos \<and> map_of WEAPON_MAPPINGS n = Some m \<and> m \<in> fst ` set pos \<longrightarrow>
      map_of (css_rules pos) n = map_of pos m) \<and>
   (\<forall>n r. map_of (css_rules pos) n = Some r \<longrightarrow>
      map_of pos n = Some r \<or> (\<exists>m. map_of WEAPON_MAPPINGS n = Some m \<and> map_of pos m = Some r)) \<and>
   read_decimal (str_nat k) = Some k \<and>
   read_offset (''-'' @ str_nat k) = Some (- int k)"
proof -
  have names: "map fst (css_rules pos) =
     sorted_list_of_set
       (fst ` set pos \<union> {n. \<exists>m. map_of WEAPON_MAPPINGS n = Some m \<and> m \<in> fst ` set pos})"
    using css_rules_names[of pos] by (simp add: exported_names_def)
  have srt: "sorted (map fst (css_rules pos))" and dst: "distinct (map fst (css_rules pos))"
    by (simp_all add: css_rules_names)
  have via: "map_of (css_rules pos) n = map_of pos m"
    if "n \<notin> fst ` set pos \<and> map_of WEAPON_MAPPINGS n = Some m \<and> m \<in> fst ` set pos" for n m
  proof -
    from that have ex: "n \<in> exported_names pos" by (auto simp: exported_names_def)
    from that have "map_of pos m \<noteq> None" by (simp add: map_of_eq_None_iff)
    then obtain r where "map_of pos m = Some r" by auto
    with that ex show ?thesis by (simp add: css_rules_lookup emitted_rect_def)
  qed
  have src: "map_of pos n = Some r \<or> (\<exists>m. map_of WEAPON_MAPPINGS n = Some m \<and> map_of pos m = Some r)"
    if "map_of (css_rules pos) n = Some r" for n r
  proof -
    from that have e: "emitted_rect pos n = Some r"
      by (simp add: css_rules_lookup split: if_splits)
    show ?thesis
    proof (cases "map_of WEAPON_MAPPINGS n")
      case None
      with e show ?thesis by (simp add: emitted_rect_def)
    next
      case (Some m)
      with e show ?thesis by (cases "map_of pos m") (simp_all add: emitted_rect_def)
    qed
  qed
  show ?thesis
    using generate_css_text[of pos] names srt dst via src
      read_decimal_str_nat[of k] read_offset_minus[of k]
    by (intro conjI allI impI) blast+
qed

theorem generate_css_rules_witness:
  "generate_css [(''tf_projectile_rocket'', 32, 64, 48, 16)] =
     Inr (text_of_lines
       [''/* TF2 Killicons - Auto-generated */'',
        '''',
        ''.killicon {'',
        ''  display: inline-block;'',
        ''  background-image: url('killicons.webp');'',
        ''  background-repeat: no-repeat;'',
        ''  vertical-align: middle;'',
        ''}'',
        '''',
        ''.killicon-rocketlauncher {'',
        ''  width: 48px;'',
        ''  height: 16px;'',
        ''  background-position: -32px -64px;'',
        ''}'',
        '''',
        ''.killicon-tf_projectile_rocket {'',
        ''  width: 48px;'',
        ''  height: 16px;'',
        ''  background-position: -32px -64px;'',
        ''}'',
        '''']) \<and>
   map_of (css_rules [(''tf_projectile_rocket'', 32, 64, 48, 16)]) ''rocketlauncher'' =
     Some (32, 64, 48, 16) \<and>
   (\<exists>m. map_of WEAPON_MAPPINGS ''rocketlauncher'' = Some m \<and>
        map_of [(''tf_projectile_rocket'', 32, 64, 48, 16)] m = Some ((32, 64, 48, 16) :: rect)) \<and>
   read_decimal ''48'' = Some 48 \<and> read_offset ''-32'' = Some (- 32)"
proof -
  let ?pos = "[(''tf_projectile_rocket'', 32, 64, 48, 16)] :: (string \<times> rect) list"
  note t = generate_css_rules[of ?pos 48]
  note u = generate_css_rules[of ?pos 32]
  have rules: "css_rules ?pos =
      [(''rocketlauncher'', 32, 64, 48, 16), (''tf_projectile_rocket'', 32, 64, 48, 16)]"
    unfolding css_rules_list by code_simp
  have lines: "sheet_header @ concat (map rule_text
        [(''rocketlauncher'', 32, 64, 48, 16), (''tf_projectile_rocket'', 32, 64, 48, 16)]) =
       [''/* TF2 Killicons - Auto-generated */'',
        '''',
        ''.killicon {'',
        ''  display: inline-block;'',
        ''  background-image: url('killicons.webp');'',
        ''  background-repeat: no-repeat;'',
        ''  vertical-align: middle;'',
        ''}'',
        '''',
        ''.killicon-rocketlauncher {'',
        ''  width: 48px;'',
        ''  height: 16px;'',
        ''  background-position: -32px -64px;'',
        ''}'',
        '''',
        ''.killicon-tf_projectile_rocket {'',
        ''  width: 48px;'',
        ''  height: 16px;'',
        ''  background-position: -32px -64px;'',
        ''}'',
        '''']"
    by code_simp
  have s48: "str_nat 48 = ''48''" and s32: "str_nat 32 = ''32''" by code_simp+
  have 1: "generate_css ?pos =
      Inr (text_of_lines (sheet_header @ concat (map rule_text (css_rules ?pos))))"
    by (rule t[THEN conjunct1])
  have "\<forall>n m. n \<notin> fst ` set ?pos \<and> map_of WEAPON_MAPPINGS n = Some m \<and> m \<in> fst ` set ?pos \<longrightarrow>
      map_of (css_rules ?pos) n = map_of ?pos m"
    by (rule t[THEN conjunct2, THEN conjunct2, THEN conjunct2, THEN conjunct2, THEN conjunct1])
  then have "''rocketlauncher'' \<notin> fst ` set ?pos \<and>
      map_of WEAPON_MAPPINGS ''rocketlauncher'' = Some ''tf_projectile_rocket'' \<and>
      ''tf_projectile_rocket'' \<in> fst ` set ?pos \<longrightarrow>
      map_of (css_rules ?pos) ''rocketlauncher'' = map_of ?pos ''tf_projectile_rocket''"
    by (elim allE)
  then have 2: "map_of (css_rules ?pos) ''rocketlauncher'' = Some (32, 64, 48, 16)"
    by (simp add: rocketlauncher_mapped)
  have "\<forall>n r. map_of (css_rules ?pos) n = Some r \<longrightarrow>
      map_of ?pos n = Some r \<or> (\<exists>m. map_of WEAPON_MAPPINGS n = Some m \<and> map_of ?pos m = Some r)"
    by (rule t[THEN conjunct2, THEN conjunct2, THEN conjunct2, THEN conjunct2, THEN conjunct2,
          THEN conjunct1])
  then have "map_of (css_rules ?pos) ''rocketlauncher'' = Some (32, 64, 48, 16) \<longrightarrow>
      map_of ?pos ''rocketlauncher'' = Some (32, 64, 48, 16) \<or>
      (\<exists>m. map_of WEAPON_MAPPINGS ''rocketlauncher'' = Some m \<and>
           map_of ?pos m = Some (32, 64, 48, 16))"
    by (elim allE)
  with 2 have 5: "\<exists>m. map_of WEAPON_MAPPINGS ''rocketlauncher'' = Some m \<and>
      map_of ?pos m = Some (32, 64, 48, 16)"
    by simp
  have "read_decimal (str_nat 48) = Some 48"
    by (rule t[THEN conjunct2, THEN conjunct2, THEN conjunct2, THEN conjunct2, THEN conjunct2,
          THEN conjunct2, THEN conjunct1])
  then have 3: "read_decimal ''48'' = Some 48" by (simp only: s48)
  have "read_offset (''-'' @ str_nat 32) = Some (- int 32)"
    by (rule u[THEN conjunct2, THEN conjunct2, THEN conjunct2, THEN conjunct2, THEN conjunct2,
          THEN conjunct2, THEN conjunct2])
  then have 4: "read_offset ''-32'' = Some (- 32)" by (simp add: s32)
  from 1 have "generate_css ?pos = Inr (text_of_lines
       [''/* TF2 Killicons - Auto-generated */'',
        '''',
        ''.killicon {'',
        ''  display: inline-block;'',
        ''  background-image: url('killicons.webp');'',
        ''  background-repeat: no-repeat;'',
        ''  vertical-align: middle;'',
        ''}'',
        '''',
        ''.killicon-rocketlauncher {'',
        ''  width: 48px;'',
        ''  height: 16px;'',
        ''  background-position: -32px -64px;'',
        ''}'',
        '''',
        ''.killicon-tf_projectile_rocket {'',
        ''  width: 48px;'',
        ''  height: 16px;'',
        ''  background-position: -32px -64px;'',
        ''}'',
        ''''])"
    by (simp only: rules lines)
  with 2 5 3 4 show ?thesis by (intro conjI)
qed

text \<open>
  C9. For a name that is a key of \<open>WEAPON_MAPPINGS\<close> with its target in \<open>positions\<close>, and
  itself a key of \<open>positions\<close>, the text \<open>generate_css\<close> writes is the header, the rules
  of other names, the rule of the name with the rect of its target, and the rules of other
  names: the name has one rule, and it carries the target's rect, whose numerals are
  strings of digits denoting its numbers.
\<close>

theorem generate_css_mapping_first:
  assumes "map_of WEAPON_MAPPINGS n = Some m"
    and "map_of pos m = Some r"
    and "n \<in> fst ` set pos"
  shows "(\<exists>before after.
            generate_css pos =
              Inr (text_of_lines
                     (sheet_header @ concat (map rule_text before) @ rule_text (n, r) @
                      concat (map rule_text after))) \<and>
            n \<notin> fst ` set before \<and> n \<notin> fst ` set after) \<and>
         read_decimal (str_nat k) = Some k \<and>
         read_offset (''-'' @ str_nat k) = Some (- int k)"
proof -
  from assms(3) have "n \<in> exported_names pos" by (simp add: exported_names_def)
  with assms(1,2) have "map_of (css_rules pos) n = Some r"
    by (simp add: css_rules_lookup emitted_rect_def)
  then obtain before after where sp: "css_rules pos = before @ (n, r) # after"
    and nb: "n \<notin> fst ` set before" and na: "n \<notin> fst ` set after"
    using css_rules_split by blast
  have "generate_css pos =
      Inr (text_of_lines
             (sheet_header @ concat (map rule_text before) @ rule_text (n, r) @
              concat (map rule_text after)))"
    by (simp add: generate_css_text sp)
  with nb na have "\<exists>before after.
            generate_css pos =
              Inr (text_of_lines
                     (sheet_header @ concat (map rule_text before) @ rule_text (n, r) @
                      concat (map rule_text after))) \<and>
            n \<notin> fst ` set before \<and> n \<notin> fst ` set after"
    by blast
  then show ?thesis
    using read_decimal_str_nat[of k] read_offset_minus[of k] by (intro conjI)
qed

theorem generate_css_mapping_first_witness:
  "(\<exists>before after.
      generate_css [(''tf_projectile_rocket'', 32, 64, 48, 16), (''rocketlauncher'', 0, 0, 64, 32)] =
        Inr (text_of_lines
               (sheet_header @ concat (map rule_text before) @
                [''.killicon-rocketlauncher {'',
                 ''  width: 48px;'',
                 ''  height: 16px;'',
                 ''  background-position: -32px -64px;'',
                 ''}'',
                 ''''] @
                concat (map rule_text after))) \<and>
      ''rocketlauncher'' \<notin> fst ` set before \<and> ''rocketlauncher'' \<notin> fst ` set after) \<and>
   generate_css [(''tf_projectile_rocket'', 32, 64, 48, 16), (''rocketlauncher'', 0, 0, 64, 32)] =
     Inr (text_of_lines
       [''/* TF2 Killicons - Auto-generated */'',
        '''',
        ''.killicon {'',
        ''  display: inline-block;'',
        ''  background-image: url('killicons.webp');'',
        ''  background-repeat: no-repeat;'',
        ''  vertical-align: middle;'',
        ''}'',
        '''',
        ''.killicon-rocketlauncher {'',
        ''  width: 48px;'',
        ''  height: 16px;'',
        ''  background-position: -32px -64px;'',
        ''}'',
        '''',
        ''.killicon-tf_projectile_rocket {'',
        ''  width: 48px;'',
        ''  height: 16px;'',
        ''  background-position: -32px -64px;'',
        ''}'',
        ''''])"
proof -
  let ?pos = "[(''tf_projectile_rocket'', 32, 64, 48, 16), (''rocketlauncher'', 0, 0, 64, 32)]
    :: (string \<times> rect) list"
  have a: "map_of ?pos ''tf_projectile_rocket'' = Some (32, 64, 48, 16)" by simp
  have b: "''rocketlauncher'' \<in> fst ` set ?pos" by simp
  note t = generate_css_mapping_first[OF rocketlauncher_mapped a b, of 0]
  have r: "rule_text (''rocketlauncher'', 32, 64, 48, 16) =
      [''.killicon-rocketlauncher {'',
       ''  width: 48px;'',
       ''  height: 16px;'',
       ''  background-position: -32px -64px;'',
       ''}'',
       '''']"
    by code_simp
  have 1: "\<exists>before after.
      generate_css ?pos =
        Inr (text_of_lines
               (sheet_header @ concat (map rule_text before) @
                [''.killicon-rocketlauncher {'',
                 ''  width: 48px;'',
                 ''  height: 16px;'',
                 ''  background-position: -32px -64px;'',
                 ''}'',
                 ''''] @
                concat (map rule_text after))) \<and>
      ''rocketlauncher'' \<notin> fst ` set before \<and> ''rocketlauncher'' \<notin> fst ` set after"
    using t[THEN conjunct1] by (simp only: r)
  have 2: "generate_css ?pos =
     Inr (text_of_lines
       [''/* TF2 Killicons - Auto-generated */'',
        '''',
        ''.killicon {'',
        ''  display: inline-block;'',
        ''  background-image: url('killicons.webp');'',
        ''  background-repeat: no-repeat;'',
        ''  vertical-align: middle;'',
        ''}'',
        '''',
        ''.killicon-rocketlauncher {'',
        ''  width: 48px;'',
        ''  height: 16px;'',
        ''  background-position: -32px -64px;'',
        ''}'',
        '''',
        ''.killicon-tf_projectile_rocket {'',
        ''  width: 48px;'',
        ''  height: 16px;'',
        ''  background-position: -32px -64px;'',
        ''}'',
        ''''])"
    by code_simp
  from 1 2 show ?thesis by (rule conjI)
qed

section \<open>The definition parser: blocks\<close>

lemma set_dropWhile_keep: "\<not> P c \<Longrightarrow> c \<in> set (dropWhile P xs) \<longleftrightarrow> c \<in> set xs"
  by (induction xs) auto

lemma strip_keeps: "\<not> py_isspace c \<Longrightarrow> c \<in> set (strip l) \<longleftrightarrow> c \<in> set l"
  by (simp add: strip_def set_dropWhile_keep)

lemma brace_not_space: "\<not> py_isspace CHR ''}''"
  by (simp add: py_isspace_def)

lemma collect_props_step:
  "CHR ''}'' \<notin> set l \<Longrightarrow> collect_props (l # ls) props = collect_props ls (prop_step props l)"
  by (simp add: Let_def strip_keeps brace_not_space prop_step_def split: option.splits)

lemma collect_props_close:
  "CHR ''}'' \<in> set l \<Longrightarrow> collect_props (l # ls) props = (props, l # ls)"
  by (simp add: Let_def strip_keeps brace_not_space)

lemma collect_props_body:
  "list_all (\<lambda>l. CHR ''}'' \<notin> set l) body \<Longrightarrow> CHR ''}'' \<in> set close_line \<Longrightarrow>
   collect_props (body @ close_line # rest) props = (foldl prop_step props body, close_line # rest)"
proof (induction body arbitrary: props)
  case Nil
  then show ?case by (simp add: collect_props_close del: collect_props.simps)
next
  case (Cons l body)
  then have "CHR ''}'' \<notin> set l" and b: "list_all (\<lambda>l. CHR ''}'' \<notin> set l) body" by simp_all
  then have "collect_props ((l # body) @ close_line # rest) props =
      collect_props (body @ close_line # rest) (prop_step props l)"
    by (simp add: collect_props_step del: collect_props.simps)
  with Cons.IH[OF b Cons.prems(2)] show ?case by simp
qed

lemma parse_blocks_block:
  assumes "is_block is_name weapon_name name_line gap open_line body close_line"
  shows "parse_blocks is_name block (name_line # gap @ open_line # body @ close_line # rest) acc =
           parse_blocks is_name block rest (block weapon_name (block_props body) acc)"
proof -
  from assms have nm: "is_name (strip name_line)"
    and gap: "list_all (\<lambda>l. CHR ''{'' \<notin> set l) gap"
    and op: "CHR ''{'' \<in> set open_line"
    and body: "list_all (\<lambda>l. CHR ''}'' \<notin> set l) body"
    and cl: "CHR ''}'' \<in> set close_line"
    by (simp_all add: is_block_def)
  from assms obtain m where m: "match_quoted (strip name_line) = Some m" "fst m = weapon_name"
    by (auto simp: is_block_def)
  have skip: "dropWhile (\<lambda>l. CHR ''{'' \<notin> set l) (gap @ open_line # body @ close_line # rest) =
      open_line # body @ close_line # rest"
    using gap op by (simp add: dropWhile_append2 list_all_iff)
  have coll: "collect_props (body @ close_line # rest) [] = (block_props body, close_line # rest)"
    unfolding block_props_def by (rule collect_props_body[OF body cl])
  show ?thesis
    by (subst parse_blocks.simps) (simp add: nm m skip coll Let_def del: collect_props.simps)
qed

lemma parse_blocks_other_line:
  "\<not> is_name (strip l) \<Longrightarrow> parse_blocks is_name block (l # rest) acc = parse_blocks is_name block rest acc"
  by (subst parse_blocks.simps) (simp add: Let_def)

lemma py_replace_absent: "\<not> sublist old s \<Longrightarrow> py_replace old new s = s"
proof (induction old new s rule: py_replace.induct)
  case (1 old new s)
  show ?case
  proof (cases "old = [] \<or> s = []")
    case True
    then show ?thesis by (subst py_replace.simps) simp
  next
    case False
    from "1.prems" have np: "\<not> prefix old s" by auto
    have "\<not> sublist old (tl s)"
    proof
      assume "sublist old (tl s)"
      then have "sublist old s" using False by (cases s) (auto simp: sublist_Cons_right)
      with "1.prems" show False by simp
    qed
    with "1.IH"(2) False np have "py_replace old new (tl s) = tl s" by simp
    with False np show ?thesis by (subst py_replace.simps) simp
  qed
qed

lemma py_replace_prefix: "old \<noteq> [] \<Longrightarrow> py_replace old new (old @ s) = new @ py_replace old new s"
  by (subst py_replace.simps) simp

lemma split_on_absent: "c \<notin> set t \<Longrightarrow> split_on c t = [t]"
  by (induction t) auto

lemma split_on_last_part:
  "c \<notin> set t \<Longrightarrow> \<exists>qs. qs \<noteq> [] \<and> split_on c (p @ c # t) = qs @ [t]"
proof (induction p)
  case Nil
  then have "split_on c ([] @ c # t) = [[]] @ [t]" by (simp add: split_on_absent)
  then show ?case by blast
next
  case (Cons x p)
  then obtain qs where qs: "qs \<noteq> []" "split_on c (p @ c # t) = qs @ [t]" by blast
  then obtain q qs' where q: "qs = q # qs'" by (cases qs) auto
  show ?case
  proof (cases "x = c")
    case True
    with qs have "split_on c ((x # p) @ c # t) = ([] # qs) @ [t]" by simp
    then show ?thesis by blast
  next
    case False
    with qs q have "split_on c ((x # p) @ c # t) = ((x # q) # qs') @ [t]" by simp
    then show ?thesis by blast
  qed
qed

lemma last_split_on: "c \<notin> set t \<Longrightarrow> last (split_on c (p @ c # t)) = t"
  using split_on_last_part[of c t p] by auto

lemma int_prop_coordinate: "int_prop props key dflt = Inr i \<longleftrightarrow> coordinate props key dflt i"
  by (auto simp: int_prop_def coordinate_def split: option.splits)

lemma int_prop_unparsable: "(\<exists>e. int_prop props key dflt = Inl e) \<longleftrightarrow> unparsable props key"
  by (auto simp: int_prop_def unparsable_def split: option.splits)

lemma read_coordinates_Inr:
  "read_coordinates props = Inr (x, y, w, h) \<longleftrightarrow>
     coordinate props ''x'' 0 x \<and> coordinate props ''y'' 0 y \<and>
     coordinate props ''width'' 32 w \<and> coordinate props ''height'' 32 h"
  unfolding int_prop_coordinate[symmetric] read_coordinates_def
  by (auto split: sum.splits)

lemma read_coordinates_Inl:
  "(\<exists>e. read_coordinates props = Inl e) \<longleftrightarrow>
     unparsable props ''x'' \<or> unparsable props ''y'' \<or>
     unparsable props ''width'' \<or> unparsable props ''height''"
proof -
  have u: "unparsable props key \<longleftrightarrow> (\<forall>i. int_prop props key dflt \<noteq> Inr i)" for key dflt
    using int_prop_unparsable[of props key dflt] by (cases "int_prop props key dflt") auto
  show ?thesis
    unfolding u[of "''x''" 0] u[of "''y''" 0] u[of "''width''" 32] u[of "''height''" 32]
      read_coordinates_def
    by (cases "int_prop props ''x'' 0"; cases "int_prop props ''y'' 0";
        cases "int_prop props ''width'' 32"; cases "int_prop props ''height'' 32") simp_all
qed

lemma py_replace_char:
  "py_replace [a] [b] s = map (\<lambda>c. if c = a then b else c) s"
proof (induction s)
  case Nil
  then show ?case by (subst py_replace.simps) simp
next
  case (Cons c s)
  then show ?case by (subst py_replace.simps) auto
qed

lemma make_definition_Inr:
  "make_definition weapon_name sprite props = Inr d \<longleftrightarrow>
     (\<exists>x y w h.
        d = \<lparr>kd_name = weapon_name, kd_sprite = sprite,
             kd_x = x, kd_y = y, kd_width = w, kd_height = h\<rparr> \<and>
        coordinate props ''x'' 0 x \<and> coordinate props ''y'' 0 y \<and>
        coordinate props ''width'' 32 w \<and> coordinate props ''height'' 32 h)"
proof (cases "read_coordinates props")
  case (Inl e)
  then have "\<not> (coordinate props ''x'' 0 x \<and> coordinate props ''y'' 0 y \<and>
        coordinate props ''width'' 32 w \<and> coordinate props ''height'' 32 h)" for x y w h
    unfolding read_coordinates_Inr[symmetric] by simp
  with Inl show ?thesis by (simp add: make_definition_def)
next
  case (Inr c)
  obtain x y w h where c: "c = (x, y, w, h)" by (cases c) auto
  have uniq: "x' = x \<and> y' = y \<and> w' = w \<and> h' = h"
    if "coordinate props ''x'' 0 x' \<and> coordinate props ''y'' 0 y' \<and>
        coordinate props ''width'' 32 w' \<and> coordinate props ''height'' 32 h'" for x' y' w' h'
    using that Inr unfolding read_coordinates_Inr[symmetric] c by simp
  have here: "coordinate props ''x'' 0 x \<and> coordinate props ''y'' 0 y \<and>
        coordinate props ''width'' 32 w \<and> coordinate props ''height'' 32 h"
    using Inr unfolding read_coordinates_Inr[symmetric] c by simp
  show ?thesis
  proof
    assume "make_definition weapon_name sprite props = Inr d"
    with Inr c have "d = \<lparr>kd_name = weapon_name, kd_sprite = sprite,
             kd_x = x, kd_y = y, kd_width = w, kd_height = h\<rparr>"
      by (simp add: make_definition_def)
    with here show "\<exists>x y w h.
        d = \<lparr>kd_name = weapon_name, kd_sprite = sprite,
             kd_x = x, kd_y = y, kd_width = w, kd_height = h\<rparr> \<and>
        coordinate props ''x'' 0 x \<and> coordinate props ''y'' 0 y \<and>
        coordinate props ''width'' 32 w \<and> coordinate props ''height'' 32 h"
      by blast
  next
    assume "\<exists>x y w h.
        d = \<lparr>kd_name = weapon_name, kd_sprite = sprite,
             kd_x = x, kd_y = y, kd_width = w, kd_height = h\<rparr> \<and>
        coordinate props ''x'' 0 x \<and> coordinate props ''y'' 0 y \<and>
        coordinate props ''width'' 32 w \<and> coordinate props ''height'' 32 h"
    then obtain x' y' w' h' where d: "d = \<lparr>kd_name = weapon_name, kd_sprite = sprite,
             kd_x = x', kd_y = y', kd_width = w', kd_height = h'\<rparr>"
      and co: "coordinate props ''x'' 0 x' \<and> coordinate props ''y'' 0 y' \<and>
        coordinate props ''width'' 32 w' \<and> coordinate props ''height'' 32 h'"
      by blast
    from uniq[OF co] d Inr c show "make_definition weapon_name sprite props = Inr d"
      by (simp add: make_definition_def)
  qed
qed

lemma make_definition_Inl:
  "(\<exists>e. make_definition weapon_name sprite props = Inl e) \<longleftrightarrow>
     unparsable props ''x'' \<or> unparsable props ''y'' \<or>
     unparsable props ''width'' \<or> unparsable props ''height''"
  unfolding read_coordinates_Inl[symmetric]
  by (cases "read_coordinates props") (auto simp: make_definition_def)

lemma mod_definition_Some:
  "mod_definition weapon_name props = Some r \<longleftrightarrow>
     (\<exists>dfile. map_of props ''dfile'' = Some dfile \<and> prefix ''HUD/d_images'' dfile \<and>
        r = make_definition weapon_name (py_lower (py_replace ''HUD/'' [] dfile)) props)"
  by (cases "map_of props ''dfile''") (auto simp: mod_definition_def)

lemma community_definition_Some:
  "community_definition weapon_name props = Some r \<longleftrightarrow>
     (\<exists>dfile. map_of props ''dfile'' = Some dfile \<and> sublist ''improvedkillicons'' (py_lower dfile) \<and>
        r = make_definition weapon_name
              (''community_'' @ last (split_on CHR ''/'' (py_replace [CHR 0x5C] ''/'' dfile))) props)"
  by (cases "map_of props ''dfile''") (auto simp: community_definition_def Let_def)

lemma official_sheet_id:
  "\<not> sublist ''HUD/'' t \<Longrightarrow> py_lower (py_replace ''HUD/'' [] (''HUD/'' @ t)) = py_lower t"
  using py_replace_prefix[of "''HUD/''" "[]" t] by (simp add: py_replace_absent)

lemma community_sheet_id:
  assumes "CHR ''/'' \<notin> set t" and "CHR 0x5C \<notin> set t" and "sep = CHR ''/'' \<or> sep = CHR 0x5C"
  shows "last (split_on CHR ''/'' (py_replace [CHR 0x5C] ''/'' (p @ sep # t))) = t"
proof -
  let ?f = "\<lambda>c. if c = CHR 0x5C then CHR ''/'' else c"
  have t: "map ?f t = t" using assms(2) by (induction t) auto
  have "py_replace [CHR 0x5C] ''/'' (p @ sep # t) = map ?f p @ CHR ''/'' # t"
    using assms(3) by (auto simp: py_replace_char t)
  then show ?thesis using assms(1) by (simp add: last_split_on)
qed

text \<open>
  C4, as the code has it. In an accepted block each of \<open>x\<close>, \<open>y\<close>, \<open>width\<close>,
  \<open>height\<close> takes its default 0, 0, 32, 32 when the property is absent and the value of
  \<open>int()\<close> when it is present and parsable. When a present value is unparsable the block
  gives no definition, no default is put in its place: \<open>parse_mod_textures\<close> prints a
  warning, \<open>parse_community_mod_textures\<close> prints none. In both parsers the loop goes on
  with the lines after the block, and a parser given its text returns.
\<close>

theorem parser_defaults_and_skips:
  "(make_definition weapon_name sprite props = Inr d \<longleftrightarrow>
      (\<exists>x y w h.
         d = \<lparr>kd_name = weapon_name, kd_sprite = sprite,
              kd_x = x, kd_y = y, kd_width = w, kd_height = h\<rparr> \<and>
         coordinate props ''x'' 0 x \<and> coordinate props ''y'' 0 y \<and>
         coordinate props ''width'' 32 w \<and> coordinate props ''height'' 32 h)) \<and>
   ((\<exists>e. make_definition weapon_name sprite props = Inl e) \<longleftrightarrow>
      unparsable props ''x'' \<or> unparsable props ''y'' \<or>
      unparsable props ''width'' \<or> unparsable props ''height'') \<and>
   (mod_definition weapon_name props = Some (Inl e) \<longrightarrow>
      mod_block weapon_name props acc = (fst acc, snd acc @ [CouldNotParse weapon_name e])) \<and>
   (community_definition weapon_name props = Some (Inl e) \<longrightarrow>
      community_block weapon_name props acc = acc) \<and>
   (is_block is_name weapon_name name_line gap open_line body close_line \<longrightarrow>
      parse_blocks is_name block (name_line # gap @ open_line # body @ close_line # rest) st =
        parse_blocks is_name block rest (block weapon_name (block_props body) st)) \<and>
   parse_mod_textures (Some content) =
     Returns (parse_blocks mod_name_line mod_block (split_on CHR 0x0A content) ([], [])) \<and>
   parse_community_mod_textures (Some content) =
     parse_blocks community_name_line community_block (split_on CHR 0x0A content) ([], [])"
proof (intro conjI impI)
  show "make_definition weapon_name sprite props = Inr d \<longleftrightarrow>
      (\<exists>x y w h.
         d = \<lparr>kd_name = weapon_name, kd_sprite = sprite,
              kd_x = x, kd_y = y, kd_width = w, kd_height = h\<rparr> \<and>
         coordinate props ''x'' 0 x \<and> coordinate props ''y'' 0 y \<and>
         coordinate props ''width'' 32 w \<and> coordinate props ''height'' 32 h)"
    by (rule make_definition_Inr)
  show "(\<exists>e. make_definition weapon_name sprite props = Inl e) \<longleftrightarrow>
      unparsable props ''x'' \<or> unparsable props ''y'' \<or>
      unparsable props ''width'' \<or> unparsable props ''height''"
    by (rule make_definition_Inl)
  show "mod_block weapon_name props acc = (fst acc, snd acc @ [CouldNotParse weapon_name e])"
    if "mod_definition weapon_name props = Some (Inl e)"
    using that by (simp add: mod_block_def)
  show "community_block weapon_name props acc = acc"
    if "community_definition weapon_name props = Some (Inl e)"
    using that by (simp add: community_block_def)
  show "parse_blocks is_name block (name_line # gap @ open_line # body @ close_line # rest) st =
        parse_blocks is_name block rest (block weapon_name (block_props body) st)"
    if "is_block is_name weapon_name name_line gap open_line body close_line"
    using that by (rule parse_blocks_block)
  show "parse_mod_textures (Some content) =
     Returns (parse_blocks mod_name_line mod_block (split_on CHR 0x0A content) ([], []))"
    by (simp add: parse_mod_textures_def)
  show "parse_community_mod_textures (Some content) =
     parse_blocks community_name_line community_block (split_on CHR 0x0A content) ([], [])"
    by (simp add: parse_community_mod_textures_def)
qed

theorem parser_defaults_and_skips_witness:
  "parse_mod_textures (Some (join_lines (bad_block @ club_block))) =
     Returns ([(''club'', \<lparr>kd_name = ''club'', kd_sprite = ''d_images'',
                            kd_x = 0, kd_y = 0, kd_width = 32, kd_height = 32\<rparr>)],
              [CouldNotParse ''bad'' (ValueError ''abc'')]) \<and>
   community_block ''bad''
     [(''dfile'', ''vgui/logos/improvedkillicons/d''), (''y'', ''abc'')] ([], []) = ([], [])"
proof -
  have cbad: "community_definition ''bad''
      [(''dfile'', ''vgui/logos/improvedkillicons/d''), (''y'', ''abc'')] =
      Some (Inl (ValueError ''abc''))"
    by code_simp
  note c = parser_defaults_and_skips[where weapon_name = "''bad''"
      and props = "[(''dfile'', ''vgui/logos/improvedkillicons/d''), (''y'', ''abc'')]"
      and e = "ValueError ''abc''" and acc = "([], [])"]
  have silent: "community_block ''bad''
     [(''dfile'', ''vgui/logos/improvedkillicons/d''), (''y'', ''abc'')] ([], []) = ([], [])"
    by (rule c[THEN conjunct2, THEN conjunct2, THEN conjunct2, THEN conjunct1, THEN mp, OF cbad])
  let ?body = "[''  '' @ quoted ''dfile'' @ ''  '' @ quoted ''HUD/d_images'',
                ''  '' @ quoted ''y'' @ ''  '' @ quoted ''abc'']"
  note t = parser_defaults_and_skips[where weapon_name = "''bad''" and props = "block_props ?body"
      and e = "ValueError ''abc''" and acc = "([], [])" and is_name = mod_name_line
      and name_line = "quoted ''bad''" and gap = "[]" and open_line = "''{''" and body = ?body
      and close_line = "''}''" and block = mod_block and rest = club_block and st = "([], [])"
      and content = "join_lines (bad_block @ club_block)"]
  have blk: "is_block mod_name_line ''bad'' (quoted ''bad'') [] ''{'' ?body ''}''"
    by code_simp
  have lines: "split_on CHR 0x0A (join_lines (bad_block @ club_block)) =
      quoted ''bad'' # [] @ ''{'' # ?body @ ''}'' # club_block"
    by code_simp
  have bad: "mod_definition ''bad'' (block_props ?body) = Some (Inl (ValueError ''abc''))"
    by code_simp
  have step: "parse_blocks mod_name_line mod_block
        (quoted ''bad'' # [] @ ''{'' # ?body @ ''}'' # club_block) ([], []) =
      parse_blocks mod_name_line mod_block club_block
        (mod_block ''bad'' (block_props ?body) ([], []))"
    by (rule t[THEN conjunct2, THEN conjunct2, THEN conjunct2, THEN conjunct2, THEN conjunct1,
          THEN mp, OF blk])
  have skip: "mod_block ''bad'' (block_props ?body) ([], []) =
      ([], [CouldNotParse ''bad'' (ValueError ''abc'')])"
    using t[THEN conjunct2, THEN conjunct2, THEN conjunct1, THEN mp, OF bad] by simp
  have rest: "parse_blocks mod_name_line mod_block club_block
        ([], [CouldNotParse ''bad'' (ValueError ''abc'')]) =
      ([(''club'', \<lparr>kd_name = ''club'', kd_sprite = ''d_images'',
                     kd_x = 0, kd_y = 0, kd_width = 32, kd_height = 32\<rparr>)],
       [CouldNotParse ''bad'' (ValueError ''abc'')])"
    by code_simp
  have "parse_mod_textures (Some (join_lines (bad_block @ club_block))) =
     Returns (parse_blocks mod_name_line mod_block
       (split_on CHR 0x0A (join_lines (bad_block @ club_block))) ([], []))"
    by (rule t[THEN conjunct2, THEN conjunct2, THEN conjunct2, THEN conjunct2, THEN conjunct2,
          THEN conjunct1])
  then have "parse_mod_textures (Some (join_lines (bad_block @ club_block))) =
     Returns ([(''club'', \<lparr>kd_name = ''club'', kd_sprite = ''d_images'',
                            kd_x = 0, kd_y = 0, kd_width = 32, kd_height = 32\<rparr>)],
              [CouldNotParse ''bad'' (ValueError ''abc'')])"
    unfolding lines step skip using rest by simp
  then show ?thesis using silent by (rule conjI)
qed

text \<open>
  The claim fails on a block with \<open>"y" "abc"\<close>: \<open>y\<close> does not default to 0, the block
  gives no definition; and the community parser skips it without a warning.
\<close>

theorem unparsable_value_counterexample:
  "map_of (block_props (tl (tl bad_block))) ''y'' = Some ''abc'' \<and>
   py_int ''abc'' = None \<and>
   parse_mod_textures (Some (join_lines bad_block)) =
     Returns ([], [CouldNotParse ''bad'' (ValueError ''abc'')]) \<and>
   parse_community_mod_textures (Some (join_lines community_bad_block)) = ([], [])"
  by code_simp

text \<open>
  C5, as the code has it. \<open>parse_mod_textures\<close> takes a block for an icon when it has a
  \<open>dfile\<close> that starts with \<open>HUD/d_images\<close>, in that case, the sheet id being the
  \<open>dfile\<close> without \<open>HUD/\<close>, lower-cased. \<open>parse_community_mod_textures\<close> takes it when
  the lower-cased \<open>dfile\<close> contains \<open>improvedkillicons\<close>, the sheet id being
  \<open>community_\<close> followed by the last component of the path, in the case it has. A block
  so taken is stored as a definition exactly when none of its numeric properties is
  unparsable.
\<close>

theorem block_acceptance:
  "(mod_definition weapon_name props = Some r \<longleftrightarrow>
     (\<exists>dfile. map_of props ''dfile'' = Some dfile \<and> prefix ''HUD/d_images'' dfile \<and>
        r = make_definition weapon_name (py_lower (py_replace ''HUD/'' [] dfile)) props)) \<and>
   (community_definition weapon_name props = Some r \<longleftrightarrow>
     (\<exists>dfile. map_of props ''dfile'' = Some dfile \<and>
        sublist ''improvedkillicons'' (py_lower dfile) \<and>
        r = make_definition weapon_name
              (''community_'' @ last (split_on CHR ''/'' (py_replace [CHR 0x5C] ''/'' dfile)))
              props)) \<and>
   ((\<exists>d. make_definition weapon_name sprite props = Inr d) \<longleftrightarrow>
      \<not> (unparsable props ''x'' \<or> unparsable props ''y'' \<or>
         unparsable props ''width'' \<or> unparsable props ''height'')) \<and>
   (\<not> sublist ''HUD/'' t \<longrightarrow> py_lower (py_replace ''HUD/'' [] (''HUD/'' @ t)) = py_lower t) \<and>
   (CHR ''/'' \<notin> set t \<and> CHR 0x5C \<notin> set t \<and> (sep = CHR ''/'' \<or> sep = CHR 0x5C) \<longrightarrow>
      last (split_on CHR ''/'' (py_replace [CHR 0x5C] ''/'' (p @ sep # t))) = t) \<and>
   mod_block weapon_name props acc =
     (case mod_definition weapon_name props of
        None \<Rightarrow> acc
      | Some (Inr d) \<Rightarrow> (AList.update weapon_name d (fst acc), snd acc)
      | Some (Inl e) \<Rightarrow> (fst acc, snd acc @ [CouldNotParse weapon_name e])) \<and>
   community_block weapon_name props acc =
     (case community_definition weapon_name props of
        None \<Rightarrow> acc
      | Some (Inr d) \<Rightarrow> (AList.update weapon_name d (fst acc), snd acc)
      | Some (Inl e) \<Rightarrow> acc)"
proof (intro conjI impI)
  show "mod_definition weapon_name props = Some r \<longleftrightarrow>
     (\<exists>dfile. map_of props ''dfile'' = Some dfile \<and> prefix ''HUD/d_images'' dfile \<and>
        r = make_definition weapon_name (py_lower (py_replace ''HUD/'' [] dfile)) props)"
    by (rule mod_definition_Some)
  show "community_definition weapon_name props = Some r \<longleftrightarrow>
     (\<exists>dfile. map_of props ''dfile'' = Some dfile \<and>
        sublist ''improvedkillicons'' (py_lower dfile) \<and>
        r = make_definition weapon_name
              (''community_'' @ last (split_on CHR ''/'' (py_replace [CHR 0x5C] ''/'' dfile)))
              props)"
    by (rule community_definition_Some)
  show "(\<exists>d. make_definition weapon_name sprite props = Inr d) \<longleftrightarrow>
      \<not> (unparsable props ''x'' \<or> unparsable props ''y'' \<or>
         unparsable props ''width'' \<or> unparsable props ''height'')"
    unfolding make_definition_Inl[of weapon_name sprite props, symmetric]
    by (cases "make_definition weapon_name sprite props") auto
  show "py_lower (py_replace ''HUD/'' [] (''HUD/'' @ t)) = py_lower t" if "\<not> sublist ''HUD/'' t"
    using that by (rule official_sheet_id)
  show "last (split_on CHR ''/'' (py_replace [CHR 0x5C] ''/'' (p @ sep # t))) = t"
    if "CHR ''/'' \<notin> set t \<and> CHR 0x5C \<notin> set t \<and> (sep = CHR ''/'' \<or> sep = CHR 0x5C)"
    using that by (intro community_sheet_id) simp_all
  show "mod_block weapon_name props acc =
     (case mod_definition weapon_name props of
        None \<Rightarrow> acc
      | Some (Inr d) \<Rightarrow> (AList.update weapon_name d (fst acc), snd acc)
      | Some (Inl e) \<Rightarrow> (fst acc, snd acc @ [CouldNotParse weapon_name e]))"
    by (simp add: mod_block_def)
  show "community_block weapon_name props acc =
     (case community_definition weapon_name props of
        None \<Rightarrow> acc
      | Some (Inr d) \<Rightarrow> (AList.update weapon_name d (fst acc), snd acc)
      | Some (Inl e) \<Rightarrow> acc)"
    by (simp add: community_block_def)
qed

theorem block_acceptance_witness:
  "py_lower (py_replace ''HUD/'' [] ''HUD/d_images_V2'') = ''d_images_v2'' \<and>
   last (split_on CHR ''/'' (py_replace [CHR 0x5C] ''/'' (''vgui/logos'' @ CHR 0x5C # ''D2''))) = ''D2''"
proof -
  note t = block_acceptance[where t = "''d_images_V2''"]
  note u = block_acceptance[where t = "''D2''" and sep = "CHR 0x5C" and p = "''vgui/logos''"]
  have a: "\<not> sublist ''HUD/'' ''d_images_V2''" by code_simp
  have b: "CHR ''/'' \<notin> set ''D2'' \<and> CHR 0x5C \<notin> set ''D2'' \<and> (CHR 0x5C = CHR ''/'' \<or> CHR 0x5C = CHR 0x5C)"
    by simp
  have low: "py_lower ''d_images_V2'' = ''d_images_v2''" by code_simp
  have "py_lower (py_replace ''HUD/'' [] (''HUD/'' @ ''d_images_V2'')) = py_lower ''d_images_V2''"
    by (rule t[THEN conjunct2, THEN conjunct2, THEN conjunct2, THEN conjunct1, THEN mp, OF a])
  then have 1: "py_lower (py_replace ''HUD/'' [] ''HUD/d_images_V2'') = ''d_images_v2''"
    by (simp add: low)
  have 2: "last (split_on CHR ''/'' (py_replace [CHR 0x5C] ''/'' (''vgui/logos'' @ CHR 0x5C # ''D2''))) = ''D2''"
    by (rule u[THEN conjunct2, THEN conjunct2, THEN conjunct2, THEN conjunct2, THEN conjunct1,
          THEN mp, OF b])
  from 1 2 show ?thesis by (rule conjI)
qed

text \<open>
  The claim fails on \<open>hud/d_images\<close>: it matches the official prefix when case is
  ignored, and the block is not taken. The community sheet id keeps its upper case, and a
  block with a matching \<open>dfile\<close> and an unparsable \<open>x\<close> is not accepted.
\<close>

theorem lower_case_dfile_counterexample:
  "prefix (py_lower ''HUD/d_images'') (py_lower ''hud/d_images'') \<and>
   mod_definition ''w'' [(''dfile'', ''hud/d_images'')] = None \<and>
   community_definition ''w'' [(''dfile'', ''X/ImprovedKillIcons/D2'')] =
     Some (Inr \<lparr>kd_name = ''w'', kd_sprite = ''community_D2'',
                kd_x = 0, kd_y = 0, kd_width = 32, kd_height = 32\<rparr>) \<and>
   mod_definition ''w'' [(''dfile'', ''HUD/d_images''), (''x'', ''abc'')] =
     Some (Inl (ValueError ''abc''))"
  by code_simp

end
